theory Spec2Isabelle
  imports Main "HOL-Library.Multiset"
begin

section \<open>Data model\<close>

text \<open>
  The script \<^verbatim>\<open>PROYECTO_COPIA_DOCUMENTOS.py\<close> lists a Drive folder recursively and compares
  the listing with a snapshot kept in a spreadsheet.

  A row is a Python list of strings, in the column order
  \<^verbatim>\<open>[Ubicacion, Nombre, Tipo, Propietario, Fecha de Subida]\<close>.
  Python strings are modelled by \<^typ>\<open>string\<close>; the program only concatenates and compares
  them, so the one non-ASCII letter of the header is written as its two UTF-8 bytes.
\<close>

type_synonym row = "string list"

text \<open>
  A Python \<^verbatim>\<open>dict\<close> keeps its keys in insertion order, and \<^verbatim>\<open>items()\<close> iterates in that order.
  It is modelled as an association list whose keys are pairwise distinct:
  \<^verbatim>\<open>d[k] = v\<close> replaces the value in place when \<^verbatim>\<open>k\<close> is already a key and appends
  the entry otherwise.
\<close>

type_synonym 'v dict = "(string \<times> 'v) list"

definition dict_keys :: "'v dict \<Rightarrow> string set" where
  "dict_keys d = set (map fst d)"

definition dict_get :: "'v dict \<Rightarrow> string \<Rightarrow> 'v option" where
  "dict_get d k = map_of d k"

fun dict_set :: "'v dict \<Rightarrow> string \<Rightarrow> 'v \<Rightarrow> 'v dict" where
  "dict_set [] k v = [(k, v)]"
| "dict_set ((k', v') # d) k v =
     (if k' = k then (k, v) # d else (k', v') # dict_set d k v)"

definition es_dict :: "'v dict \<Rightarrow> bool" where
  "es_dict d = distinct (map fst d)"

datatype error = IndexError

text \<open>Log records of the \<^verbatim>\<open>logging\<close> module: the level and the formatted message.\<close>

datatype nivel = ERROR | WARNING

type_synonym registro_log = "nivel \<times> string"

section \<open>Snapshot differ and codec\<close>

text \<open>
  The key expression \<^verbatim>\<open>row[0] + "_" + row[1]\<close>, written out in \<^verbatim>\<open>obtener_snapshot\<close> and again
  in \<^verbatim>\<open>main\<close>. Indexing a row with fewer than two columns raises \<^verbatim>\<open>IndexError\<close>.
\<close>

fun clave :: "row \<Rightarrow> error + string" where
  "clave (ubicacion # nombre # _) = Inr (ubicacion @ ''_'' @ nombre)"
| "clave _ = Inl IndexError"

text \<open>The loop \<^verbatim>\<open>for row in rows: key = ...; snapshot[key] = row\<close>, started from a snapshot.\<close>

fun indexar :: "row dict \<Rightarrow> row list \<Rightarrow> error + row dict" where
  "indexar snapshot [] = Inr snapshot"
| "indexar snapshot (row # rows) =
     (case clave row of
        Inl e \<Rightarrow> Inl e
      | Inr key \<Rightarrow> indexar (dict_set snapshot key row) rows)"

text \<open>
  \<^verbatim>\<open>obtener_snapshot\<close>, applied to the table that \<^verbatim>\<open>get_all_values()\<close> returns: fewer than
  two rows give the empty snapshot, otherwise the header is skipped and the rest is keyed.
\<close>

definition obtener_snapshot :: "row list \<Rightarrow> error + row dict" where
  "obtener_snapshot data =
     (if length data < 2 then Inr []
      else indexar [] (drop 1 data))"

text \<open>The keying of \<^verbatim>\<open>datos_actuales\<close> in \<^verbatim>\<open>main\<close> (the variable \<^verbatim>\<open>snapshot_nuevo\<close>).\<close>

definition main_snapshot_nuevo :: "row list \<Rightarrow> error + row dict" where
  "main_snapshot_nuevo datos_actuales = indexar [] datos_actuales"

text \<open>The two loops of \<^verbatim>\<open>comparar_snapshot\<close>, each over the items of one dictionary.\<close>

fun bucle_nuevos :: "row dict \<Rightarrow> row dict \<Rightarrow> row list" where
  "bucle_nuevos snapshot_actual [] = []"
| "bucle_nuevos snapshot_actual ((key, row) # items) =
     (if key \<notin> dict_keys snapshot_actual
      then row # bucle_nuevos snapshot_actual items
      else bucle_nuevos snapshot_actual items)"

fun bucle_eliminados :: "row dict \<Rightarrow> row dict \<Rightarrow> row list" where
  "bucle_eliminados [] snapshot_nuevo = []"
| "bucle_eliminados ((key, row) # items) snapshot_nuevo =
     (if key \<notin> dict_keys snapshot_nuevo
      then row # bucle_eliminados items snapshot_nuevo
      else bucle_eliminados items snapshot_nuevo)"

definition comparar_snapshot :: "row dict \<Rightarrow> row dict \<Rightarrow> row list \<times> row list" where
  "comparar_snapshot snapshot_actual snapshot_nuevo =
     (bucle_nuevos snapshot_actual snapshot_nuevo,
      bucle_eliminados snapshot_actual snapshot_nuevo)"

text \<open>
  The worksheet is the list of its rows. \<^verbatim>\<open>actualizar_snapshot\<close> clears it, appends the header
  row and then appends the data rows.
\<close>

definition header :: row where
  "header = [''Ubicaci'' @ [CHR 0xC3, CHR 0xB3] @ ''n'', ''Nombre'', ''Tipo'',
             ''Propietario'', ''Fecha de Subida'']"

definition actualizar_snapshot :: "row list \<Rightarrow> row list \<Rightarrow> row list" where
  "actualizar_snapshot snapshot_sheet datos = ([] @ [header]) @ datos"

section \<open>Tree walker\<close>

text \<open>
  The response of \<^verbatim>\<open>files().list(...).execute()\<close>: either the call raises (the text of the
  exception is kept), or it returns a dictionary with the optional keys \<^verbatim>\<open>files\<close> and
  \<^verbatim>\<open>nextPageToken\<close>. The item fields are those requested by the \<^verbatim>\<open>fields\<close> argument;
  \<^verbatim>\<open>owners\<close> and \<^verbatim>\<open>createdTime\<close> are read defensively by the code and are optional here.
  The keys \<^verbatim>\<open>id\<close>, \<^verbatim>\<open>name\<close>, \<^verbatim>\<open>mimeType\<close> and the \<^verbatim>\<open>emailAddress\<close> of an owner are read
  with plain indexing; the listing service always sends them, and the records below have
  them as fields that are always present. The listing call is a function of the parent id
  and the page token: the Drive content does not change during one walk.
\<close>

record owner =
  emailAddress :: string

record item =
  item_id :: string
  name :: string
  mimeType :: string
  owners :: "owner list option"
  createdTime :: "string option"

record resultados =
  files :: "item list option"
  nextPageToken :: "string option"

text \<open>
  What the walk calls from outside the script: the listing call of the Drive service, taking
  the parent id and the page token, and the two \<^verbatim>\<open>datetime\<close> functions at the formats the
  script fixes, \<^verbatim>\<open>strptime(s, "%Y-%m-%dT%H:%M:%S.%fZ")\<close>, which may raise, and
  \<^verbatim>\<open>strftime("%d/%m/%Y %H:%M:%S")\<close>.
\<close>

record 'dt entorno =
  files_list :: "string \<Rightarrow> string option \<Rightarrow> string + resultados"
  strptime :: "string \<Rightarrow> string + 'dt"
  strftime :: "'dt \<Rightarrow> string"

text \<open>What a call has produced: the rows of \<^verbatim>\<open>archivos_lista\<close> and the log records emitted.\<close>

type_synonym salida = "row list \<times> registro_log list"

definition extend :: "salida \<Rightarrow> salida \<Rightarrow> salida" where
  "extend a b = (fst a @ fst b, snd a @ snd b)"

definition carpeta_mime :: string where
  "carpeta_mime = ''application/vnd.google-apps.folder''"

definition tipo_de :: "item \<Rightarrow> string" where
  "tipo_de it = (if mimeType it = carpeta_mime then ''Carpeta'' else ''Archivo'')"

definition propietario_de :: "item \<Rightarrow> string" where
  "propietario_de it =
     (case owners it of
        Some (primero # _) \<Rightarrow> emailAddress primero
      | _ \<Rightarrow> ''Desconocido'')"

text \<open>The \<^verbatim>\<open>try\<close> block around the two \<^verbatim>\<open>datetime\<close> calls, with its warning.\<close>

definition formatear_fecha :: "'dt entorno \<Rightarrow> string \<Rightarrow> string \<times> registro_log list" where
  "formatear_fecha E fecha_subida =
     (case strptime E fecha_subida of
        Inl e \<Rightarrow>
          (fecha_subida,
           [(WARNING, ''No se pudo formatear la fecha '' @ fecha_subida @ '': '' @ e)])
      | Inr fecha_obj \<Rightarrow> (strftime E fecha_obj, []))"

text \<open>The part of the body of \<^verbatim>\<open>for item in items\<close> that builds and appends the record.\<close>

definition registro :: "'dt entorno \<Rightarrow> string \<Rightarrow> item \<Rightarrow> salida" where
  "registro E ruta_actual it =
     (let tipo = tipo_de it;
          propietario = propietario_de it;
          fecha_subida = (case createdTime it of Some t \<Rightarrow> t | None \<Rightarrow> ''No disponible'');
          (fecha_formateada, avisos) = formatear_fecha E fecha_subida
      in ([[ruta_actual, name it, tipo, propietario, fecha_formateada]], avisos))"

text \<open>
  The walk does not return when the folders form a cycle or the page tokens never end (and
  Python gives up on a recursion that is too deep), so it takes fuel: one unit for every
  listing call on the way down, through pages and into folders. \<^term>\<open>None\<close> means that the
  fuel ran out before the call returned; a result \<^term>\<open>Some\<close> does not change with more
  fuel. \<^verbatim>\<open>bucle_paginas\<close> is the \<^verbatim>\<open>while True\<close> loop from a given page token on,
  \<^verbatim>\<open>bucle_items\<close> the \<^verbatim>\<open>for\<close> loop over the items of one page. The rows appended to
  \<^verbatim>\<open>archivos_lista\<close> and the log records are returned in the order in which they are
  produced.
\<close>

fun obtener_archivos_recursivamente ::
      "nat \<Rightarrow> 'dt entorno \<Rightarrow> string \<Rightarrow> string \<Rightarrow> salida option"
  and bucle_paginas ::
      "nat \<Rightarrow> 'dt entorno \<Rightarrow> string \<Rightarrow> string \<Rightarrow> string option \<Rightarrow> salida option"
  and bucle_items ::
      "nat \<Rightarrow> 'dt entorno \<Rightarrow> string \<Rightarrow> item list \<Rightarrow> salida option"
where
  "obtener_archivos_recursivamente fuel E parent_id ruta_actual =
     bucle_paginas fuel E parent_id ruta_actual None"
| "bucle_paginas 0 E parent_id ruta_actual page_token = None"
| "bucle_paginas (Suc fuel) E parent_id ruta_actual page_token =
     (case files_list E parent_id page_token of
        Inl e \<Rightarrow>
          Some ([], [(ERROR, ''Error al listar archivos en la carpeta '' @ parent_id
                              @ '': '' @ e)])
      | Inr res \<Rightarrow>
          (case bucle_items fuel E ruta_actual
                  (case files res of None \<Rightarrow> [] | Some fs \<Rightarrow> fs) of
             None \<Rightarrow> None
           | Some pagina \<Rightarrow>
               (case nextPageToken res of
                  None \<Rightarrow> Some pagina
                | Some tok \<Rightarrow>
                    if tok = [] then Some pagina
                    else (case bucle_paginas fuel E parent_id ruta_actual (Some tok) of
                            None \<Rightarrow> None
                          | Some resto \<Rightarrow> Some (extend pagina resto)))))"
| "bucle_items fuel E ruta_actual [] = Some ([], [])"
| "bucle_items fuel E ruta_actual (it # items) =
     (case (if tipo_de it = ''Carpeta''
            then obtener_archivos_recursivamente fuel E (item_id it)
                   (ruta_actual @ ''/'' @ name it)
            else Some ([], [])) of
        None \<Rightarrow> None
      | Some dentro \<Rightarrow>
          (case bucle_items fuel E ruta_actual items of
             None \<Rightarrow> None
           | Some resto \<Rightarrow> Some (extend (registro E ruta_actual it) (extend dentro resto))))"

section \<open>Listing services\<close>

text \<open>
  The children that the listing service delivers for a container from a page token on: the
  files of the page at that token, followed by the files of the pages reached through the
  continuation tokens, up to a page without a (non-empty) token. No page of the chain fails.
\<close>

inductive entrega ::
  "(string \<Rightarrow> string option \<Rightarrow> string + resultados) \<Rightarrow> string \<Rightarrow> string option \<Rightarrow> item list \<Rightarrow> bool"
  for svc :: "string \<Rightarrow> string option \<Rightarrow> string + resultados" and parent_id :: string
where
  ultima:
    "svc parent_id page_token = Inr res \<Longrightarrow>
     nextPageToken res = None \<or> nextPageToken res = Some [] \<Longrightarrow>
     entrega svc parent_id page_token (case files res of None \<Rightarrow> [] | Some fs \<Rightarrow> fs)"
| siguiente:
    "svc parent_id page_token = Inr res \<Longrightarrow>
     nextPageToken res = Some tok \<Longrightarrow> tok \<noteq> [] \<Longrightarrow>
     entrega svc parent_id (Some tok) resto \<Longrightarrow>
     entrega svc parent_id page_token ((case files res of None \<Rightarrow> [] | Some fs \<Rightarrow> fs) @ resto)"

code_pred entrega .

text \<open>A listing service that delivers the children of every container as a single page.\<close>

definition una_pagina :: "(string \<Rightarrow> item list) \<Rightarrow> string \<Rightarrow> string option \<Rightarrow> string + resultados" where
  "una_pagina hijos parent_id page_token =
     Inr \<lparr>files = Some (hijos parent_id), nextPageToken = None\<rparr>"

text \<open>
  A listing service in which every failing call is replaced by an empty last page.
\<close>

definition silenciar ::
  "(string \<Rightarrow> string option \<Rightarrow> string + resultados) \<Rightarrow> string \<Rightarrow> string option \<Rightarrow> string + resultados" where
  "silenciar svc parent_id page_token =
     (case svc parent_id page_token of
        Inl e \<Rightarrow> Inr \<lparr>files = Some [], nextPageToken = None\<rparr>
      | Inr res \<Rightarrow> Inr res)"

section \<open>Example data\<close>

definition fila_a_antes :: row where
  "fila_a_antes = [''Root'', ''a.txt'', ''Archivo'', ''ana@example.org'', ''01/02/2024 03:04:05'']"

definition fila_a_despues :: row where
  "fila_a_despues = [''Root'', ''a.txt'', ''Archivo'', ''luis@example.org'', ''01/02/2024 03:04:05'']"

definition fila_viejo :: row where
  "fila_viejo = [''Root'', ''viejo.txt'', ''Archivo'', ''ana@example.org'', ''05/01/2023 10:00:00'']"

definition fila_nuevo :: row where
  "fila_nuevo = [''Root/sub'', ''nuevo.txt'', ''Archivo'', ''Desconocido'', ''No disponible'']"

definition snapshot_anterior :: "row dict" where
  "snapshot_anterior = [(''Root_a.txt'', fila_a_antes), (''Root_viejo.txt'', fila_viejo)]"

definition snapshot_corriente :: "row dict" where
  "snapshot_corriente = [(''Root_a.txt'', fila_a_despues), (''Root/sub_nuevo.txt'', fila_nuevo)]"

definition fila_ab_c :: row where
  "fila_ab_c = [''a_b'', ''c'', ''Archivo'', ''ana@example.org'', ''01/02/2024 03:04:05'']"

definition fila_a_bc :: row where
  "fila_a_bc = [''a'', ''b_c'', ''Carpeta'', ''luis@example.org'', ''05/01/2023 10:00:00'']"

text \<open>
  An example of a paginated listing service: pages of \<open>k\<close> children, the token of page
  \<open>i\<close> being \<open>i\<close> letters \<open>p\<close>. The example container \<open>raiz\<close> holds 250 files and is
  listed in pages of 100.
\<close>

definition por_paginas ::
  "nat \<Rightarrow> (string \<Rightarrow> item list) \<Rightarrow> string \<Rightarrow> string option \<Rightarrow> string + resultados" where
  "por_paginas k hijos parent_id page_token =
     (let i = (case page_token of None \<Rightarrow> 0 | Some t \<Rightarrow> length t);
          resto = drop (i * k) (hijos parent_id)
      in Inr \<lparr>files = Some (take k resto),
              nextPageToken = (if k < length resto then Some (replicate (Suc i) CHR ''p'') else None)\<rparr>)"

definition archivo_n :: "nat \<Rightarrow> item" where
  "archivo_n i = \<lparr>item_id = ''id-'' @ replicate i CHR ''i'', name = ''doc-'' @ replicate i CHR ''i'',
                  mimeType = ''text/plain'', owners = None, createdTime = None\<rparr>"

definition hijos_250 :: "string \<Rightarrow> item list" where
  "hijos_250 parent_id = (if parent_id = ''raiz'' then map archivo_n [0..<250] else [])"

definition sin_fechas :: "string \<Rightarrow> string + unit" where
  "sin_fechas s = Inl ''time data does not match format''"

definition entorno_paginado :: "unit entorno" where
  "entorno_paginado =
     \<lparr>files_list = por_paginas 100 hijos_250, strptime = sin_fechas, strftime = (\<lambda>_. [])\<rparr>"

definition fila_250 :: "nat \<Rightarrow> row" where
  "fila_250 i = [''Root'', ''doc-'' @ replicate i CHR ''i'', ''Archivo'', ''Desconocido'', ''No disponible'']"

definition aviso_250 :: registro_log where
  "aviso_250 = (WARNING, ''No se pudo formatear la fecha No disponible: time data does not match format'')"

definition salida_250 :: salida where
  "salida_250 = (map fila_250 [0..<250], map (\<lambda>_. aviso_250) [0..<250])"

text \<open>
  Example listings. \<open>strptime_ejemplo\<close> stands in for the library parser on the timestamps of
  the examples: it accepts the one well-formed timestamp and gives its display text as the
  parsed value, so that \<open>strftime\<close> is the identity; every other string is rejected.
\<close>

definition strptime_ejemplo :: "string \<Rightarrow> string + string" where
  "strptime_ejemplo s =
     (if s = ''2024-02-01T03:04:05.678Z'' then Inr ''01/02/2024 03:04:05''
      else Inl (''time data '' @ s @ '' does not match format''))"

definition item_a :: item where
  "item_a = \<lparr>item_id = ''id-a'', name = ''a.txt'', mimeType = ''text/plain'',
             owners = Some [\<lparr>emailAddress = ''ana@example.org''\<rparr>,
                            \<lparr>emailAddress = ''luis@example.org''\<rparr>],
             createdTime = Some ''2024-02-01T03:04:05.678Z''\<rparr>"

definition item_sub :: item where
  "item_sub = \<lparr>item_id = ''id-sub'', name = ''sub'',
               mimeType = ''application/vnd.google-apps.folder'',
               owners = Some [], createdTime = Some ''ayer''\<rparr>"

definition item_b :: item where
  "item_b = \<lparr>item_id = ''id-b'', name = ''b.txt'', mimeType = ''application/pdf'',
             owners = None, createdTime = None\<rparr>"

definition item_roto :: item where
  "item_roto = \<lparr>item_id = ''id-roto'', name = ''roto'',
                mimeType = ''application/vnd.google-apps.folder'',
                owners = None, createdTime = Some ''2024-02-01T03:04:05.678Z''\<rparr>"

definition fila_sub :: row where
  "fila_sub = [''Root'', ''sub'', ''Carpeta'', ''Desconocido'', ''ayer'']"

definition fila_b :: row where
  "fila_b = [''Root/sub'', ''b.txt'', ''Archivo'', ''Desconocido'', ''No disponible'']"

definition fila_roto :: row where
  "fila_roto = [''Root'', ''roto'', ''Carpeta'', ''Desconocido'', ''01/02/2024 03:04:05'']"

definition aviso_sub :: registro_log where
  "aviso_sub =
     (WARNING, ''No se pudo formatear la fecha ayer: time data ayer does not match format'')"

definition aviso_b :: registro_log where
  "aviso_b =
     (WARNING, ''No se pudo formatear la fecha No disponible: time data No disponible does not match format'')"

text \<open>The fixture tree: a file \<open>a.txt\<close> and a folder \<open>sub\<close> that holds a file \<open>b.txt\<close>.\<close>

definition entorno_fixture :: "string entorno" where
  "entorno_fixture =
     \<lparr>files_list = (\<lambda>parent_id page_token.
         if parent_id = ''raiz'' \<and> page_token = None
         then Inr \<lparr>files = Some [item_a, item_sub], nextPageToken = None\<rparr>
         else if parent_id = ''id-sub'' \<and> page_token = None
         then Inr \<lparr>files = Some [item_b], nextPageToken = None\<rparr>
         else Inl ''HttpError 404''),
      strptime = strptime_ejemplo, strftime = (\<lambda>fecha_obj. fecha_obj)\<rparr>"

text \<open>
  A tree with failures: the first page of the root holds \<open>sub\<close>, a folder \<open>roto\<close> whose
  listing fails, and \<open>a.txt\<close>; the request for the second page of the root fails.
\<close>

definition entorno_fallos :: "string entorno" where
  "entorno_fallos =
     \<lparr>files_list = (\<lambda>parent_id page_token.
         if parent_id = ''raiz'' \<and> page_token = None
         then Inr \<lparr>files = Some [item_sub, item_roto, item_a], nextPageToken = Some ''t2''\<rparr>
         else if parent_id = ''id-sub'' \<and> page_token = None
         then Inr \<lparr>files = Some [item_b], nextPageToken = None\<rparr>
         else Inl ''HttpError 500''),
      strptime = strptime_ejemplo, strftime = (\<lambda>fecha_obj. fecha_obj)\<rparr>"

definition error_roto :: registro_log where
  "error_roto = (ERROR, ''Error al listar archivos en la carpeta id-roto: HttpError 500'')"

definition error_raiz :: registro_log where
  "error_raiz = (ERROR, ''Error al listar archivos en la carpeta raiz: HttpError 500'')"

section \<open>Dictionaries\<close>

lemma dict_keys_dict_set: "dict_keys (dict_set d k v) = insert k (dict_keys d)"
  by (induction d k v rule: dict_set.induct) (auto simp: dict_keys_def)

lemma es_dict_dict_set: "es_dict d \<Longrightarrow> es_dict (dict_set d k v)"
proof (induction d k v rule: dict_set.induct)
  case (1 k v)
  then show ?case by (simp add: es_dict_def)
next
  case (2 k' v' d k v)
  have "fst ` set (dict_set d k v) = insert k (fst ` set d)"
    using dict_keys_dict_set [of d k v] by (simp add: dict_keys_def)
  with 2 show ?case by (auto simp: es_dict_def)
qed

lemma dict_get_dict_set:
  "dict_get (dict_set d k v) k' = (if k' = k then Some v else dict_get d k')"
  by (induction d k v rule: dict_set.induct) (auto simp: dict_get_def)

lemma find_snoc:
  "List.find P (xs @ [x]) =
     (case List.find P xs of None \<Rightarrow> (if P x then Some x else None) | Some y \<Rightarrow> Some y)"
  by (induction xs) auto

section \<open>The differ\<close>

lemma bucle_nuevos_filter:
  "bucle_nuevos a n = map snd (filter (\<lambda>p. fst p \<notin> dict_keys a) n)"
  by (induction a n rule: bucle_nuevos.induct) auto

lemma bucle_eliminados_filter:
  "bucle_eliminados a n = map snd (filter (\<lambda>p. fst p \<notin> dict_keys n) a)"
  by (induction a n rule: bucle_eliminados.induct) auto

text \<open>
  The rows of a dictionary whose keys lie outside a set \<open>S\<close>, as a multiset: one copy of the
  stored row for every key of the dictionary that is not in \<open>S\<close>.
\<close>

lemma filas_fuera_mset:
  "distinct (map fst d) \<Longrightarrow>
   mset (map snd (filter (\<lambda>p. fst p \<notin> S) d)) =
   image_mset (\<lambda>k. the (map_of d k)) (mset_set (set (map fst d) - S))"
proof (induction d)
  case Nil
  then show ?case by simp
next
  case (Cons p d)
  obtain k v where p: "p = (k, v)" by (cases p)
  from Cons.prems have knot: "k \<notin> set (map fst d)" and dd: "distinct (map fst d)"
    by (simp_all add: p)
  have same: "image_mset (\<lambda>k'. the (map_of (p # d) k')) (mset_set (set (map fst d) - S)) =
              image_mset (\<lambda>k'. the (map_of d k')) (mset_set (set (map fst d) - S))"
    by (rule image_mset_cong) (use knot in \<open>auto simp: p\<close>)
  show ?case
  proof (cases "k \<in> S")
    case True
    then have "set (map fst (p # d)) - S = set (map fst d) - S" by (auto simp: p)
    with True same Cons.IH [OF dd] show ?thesis by (simp add: p)
  next
    case False
    then have "set (map fst (p # d)) - S = insert k (set (map fst d) - S)" by (auto simp: p)
    moreover have "k \<notin> set (map fst d) - S" using knot by simp
    ultimately show ?thesis using False same Cons.IH [OF dd] by (simp add: p)
  qed
qed

text \<open>
  C1 (partition property). For two dictionaries \<open>previous\<close> and \<open>current\<close>, the list
  \<open>nuevos\<close> returned by \<open>comparar_snapshot\<close> holds, counted with multiplicity, exactly one
  entry for every key of \<open>current\<close> that is not a key of \<open>previous\<close>, and that entry is the row
  stored in \<open>current\<close>; \<open>eliminados\<close> holds exactly one entry for every key of \<open>previous\<close> that
  is not a key of \<open>current\<close>, the row stored in \<open>previous\<close>. A key of both dictionaries is in
  neither difference and so contributes no entry, whatever the two rows are.
\<close>

theorem comparar_snapshot_particion:
  "es_dict previous \<Longrightarrow> es_dict current \<Longrightarrow>
   comparar_snapshot previous current = (nuevos, eliminados) \<Longrightarrow>
     mset nuevos =
       image_mset (\<lambda>key. the (dict_get current key))
         (mset_set (dict_keys current - dict_keys previous)) \<and>
     mset eliminados =
       image_mset (\<lambda>key. the (dict_get previous key))
         (mset_set (dict_keys previous - dict_keys current))"
  using filas_fuera_mset [of current "dict_keys previous"]
        filas_fuera_mset [of previous "dict_keys current"]
  by (auto simp: comparar_snapshot_def bucle_nuevos_filter bucle_eliminados_filter
        es_dict_def dict_keys_def dict_get_def)

text \<open>
  The property at two snapshots that share the key \<open>Root_a.txt\<close> with different owners: the
  shared key is reported in neither list.
\<close>

theorem comparar_snapshot_particion_witness:
  "es_dict snapshot_anterior \<and> es_dict snapshot_corriente \<and>
   comparar_snapshot snapshot_anterior snapshot_corriente = ([fila_nuevo], [fila_viejo]) \<and>
   fila_a_antes \<noteq> fila_a_despues \<and>
   mset [fila_nuevo] =
     image_mset (\<lambda>key. the (dict_get snapshot_corriente key))
       (mset_set (dict_keys snapshot_corriente - dict_keys snapshot_anterior)) \<and>
   mset [fila_viejo] =
     image_mset (\<lambda>key. the (dict_get snapshot_anterior key))
       (mset_set (dict_keys snapshot_anterior - dict_keys snapshot_corriente))"
proof -
  have d1: "es_dict snapshot_anterior"
    by (simp add: es_dict_def snapshot_anterior_def)
  have d2: "es_dict snapshot_corriente"
    by (simp add: es_dict_def snapshot_corriente_def)
  have c: "comparar_snapshot snapshot_anterior snapshot_corriente = ([fila_nuevo], [fila_viejo])"
    by (simp add: comparar_snapshot_def snapshot_anterior_def snapshot_corriente_def
          dict_keys_def)
  have n: "fila_a_antes \<noteq> fila_a_despues"
    by (simp add: fila_a_antes_def fila_a_despues_def)
  from comparar_snapshot_particion [OF d1 d2 c] d1 d2 c n show ?thesis by simp
qed

text \<open>
  C6 (symmetry). The added list of \<open>comparar_snapshot A B\<close> is the removed list of
  \<open>comparar_snapshot B A\<close>, and the removed list of the first is the added list of the second,
  as lists (same rows in the same order).
\<close>

theorem comparar_snapshot_simetria:
  "fst (comparar_snapshot A B) = snd (comparar_snapshot B A) \<and>
   snd (comparar_snapshot A B) = fst (comparar_snapshot B A)"
  by (simp add: comparar_snapshot_def bucle_nuevos_filter bucle_eliminados_filter)

section \<open>The snapshot codec\<close>

lemma clave_Inr_iff: "(\<exists>key. clave row = Inr key) \<longleftrightarrow> 2 \<le> length row"
  by (cases row rule: clave.cases) auto

lemma set_dict_set: "set (dict_set d k v) \<subseteq> insert (k, v) (set d)"
  by (induction d k v rule: dict_set.induct) auto

lemma dict_set_nueva: "k \<notin> dict_keys d \<Longrightarrow> dict_set d k v = d @ [(k, v)]"
  by (induction d k v rule: dict_set.induct) (auto simp: dict_keys_def)

lemma indexar_ultimo:
  "indexar s0 rows = Inr s \<Longrightarrow> es_dict s0 \<Longrightarrow>
     es_dict s \<and>
     dict_get s k = (case List.find (\<lambda>row. clave row = Inr k) (rev rows) of
                       None \<Rightarrow> dict_get s0 k | Some row \<Rightarrow> Some row)"
proof (induction rows arbitrary: s0)
  case Nil
  then show ?case by simp
next
  case (Cons row rows)
  from Cons.prems(1) obtain key where key: "clave row = Inr key"
    and rest: "indexar (dict_set s0 key row) rows = Inr s"
    by (auto split: sum.splits)
  from Cons.IH [OF rest es_dict_dict_set [OF Cons.prems(2)]]
  show ?case
    by (auto simp: find_snoc dict_get_dict_set key split: option.splits)
qed

lemma indexar_total:
  "\<forall>row\<in>set rows. 2 \<le> length row \<Longrightarrow> \<exists>s. indexar s0 rows = Inr s"
proof (induction rows arbitrary: s0)
  case Nil
  then show ?case by simp
next
  case (Cons row rows)
  then obtain key where "clave row = Inr key"
    using clave_Inr_iff [of row] by auto
  with Cons show ?case by simp
qed

lemma indexar_entradas:
  "indexar s0 rows = Inr s \<Longrightarrow> (k, r) \<in> set s \<Longrightarrow>
     (k, r) \<in> set s0 \<or> (r \<in> set rows \<and> clave r = Inr k)"
proof (induction rows arbitrary: s0)
  case Nil
  then show ?case by simp
next
  case (Cons row rows)
  from Cons.prems(1) obtain key where key: "clave row = Inr key"
    and rest: "indexar (dict_set s0 key row) rows = Inr s"
    by (auto split: sum.splits)
  from Cons.IH [OF rest Cons.prems(2)] set_dict_set [of s0 key row] key
  show ?case by auto
qed

lemma indexar_claves:
  "indexar s0 rows = Inr s \<Longrightarrow>
     dict_keys s = dict_keys s0 \<union> {key. \<exists>row\<in>set rows. clave row = Inr key}"
proof (induction rows arbitrary: s0)
  case Nil
  then show ?case by simp
next
  case (Cons row rows)
  from Cons.prems(1) obtain key where key: "clave row = Inr key"
    and rest: "indexar (dict_set s0 key row) rows = Inr s"
    by (auto split: sum.splits)
  from Cons.IH [OF rest] key show ?case
    by (auto simp: dict_keys_dict_set)
qed

lemma indexar_sin_colision:
  "indexar s0 rows = Inr s \<Longrightarrow> distinct (map clave rows) \<Longrightarrow>
   (\<forall>row\<in>set rows. \<forall>k. clave row = Inr k \<longrightarrow> k \<notin> dict_keys s0) \<Longrightarrow>
     map snd s = map snd s0 @ rows"
proof (induction rows arbitrary: s0)
  case Nil
  then show ?case by simp
next
  case (Cons row rows)
  from Cons.prems(1) obtain key where key: "clave row = Inr key"
    and rest: "indexar (dict_set s0 key row) rows = Inr s"
    by (auto split: sum.splits)
  have fresh: "key \<notin> dict_keys s0" using Cons.prems(3) key by simp
  have "\<forall>r\<in>set rows. \<forall>k. clave r = Inr k \<longrightarrow> k \<notin> dict_keys (dict_set s0 key row)"
  proof (intro ballI allI impI)
    fix r k assume r: "r \<in> set rows" and k: "clave r = Inr k"
    have "k \<noteq> key" using Cons.prems(2) r k key by (auto simp: image_iff)
    moreover have "k \<notin> dict_keys s0" using Cons.prems(3) r k by simp
    ultimately show "k \<notin> dict_keys (dict_set s0 key row)"
      by (simp add: dict_keys_dict_set)
  qed
  with Cons.IH [OF rest] Cons.prems(2) have "map snd s = map snd (dict_set s0 key row) @ rows"
    by simp
  then show ?case by (simp add: dict_set_nueva [OF fresh])
qed

lemma obtener_actualizar: "obtener_snapshot (actualizar_snapshot sheet datos) = indexar [] datos"
  by (cases datos) (simp_all add: obtener_snapshot_def actualizar_snapshot_def)

text \<open>
  C3 (snapshot codec round trip). Decoding the table that \<open>actualizar_snapshot\<close> writes, the
  header row followed by the records, gives the very dictionary that \<open>main\<close> builds by keying
  the same records with \<open>row[0] + "_" + row[1]\<close>. When every record has its two key columns
  the result is a dictionary and not an \<open>IndexError\<close>; its keys are the keys of the records,
  every stored row is one of the records filed under its own key, and when the derived keys
  are pairwise distinct every record is stored, in the order of the list. This holds for
  every list of records, so also for the non-empty ones with distinct location and name.
\<close>

theorem snapshot_ida_y_vuelta:
  "obtener_snapshot (actualizar_snapshot sheet datos) = main_snapshot_nuevo datos \<and>
   ((\<forall>row\<in>set datos. 2 \<le> length row) \<longrightarrow>
      (\<exists>snapshot. obtener_snapshot (actualizar_snapshot sheet datos) = Inr snapshot \<and>
         es_dict snapshot \<and>
         dict_keys snapshot = {key. \<exists>row\<in>set datos. clave row = Inr key} \<and>
         (\<forall>(key, row)\<in>set snapshot. row \<in> set datos \<and> clave row = Inr key) \<and>
         (distinct (map clave datos) \<longrightarrow> map snd snapshot = datos)))"
proof (intro conjI impI)
  show "obtener_snapshot (actualizar_snapshot sheet datos) = main_snapshot_nuevo datos"
    by (simp add: obtener_actualizar main_snapshot_nuevo_def)
next
  assume wf: "\<forall>row\<in>set datos. 2 \<le> length row"
  from indexar_total [OF wf, of "[]"] obtain s where s: "indexar [] datos = Inr s" ..
  have e: "es_dict ([] :: row dict)" by (simp add: es_dict_def)
  have "es_dict s" using indexar_ultimo [OF s e] by simp
  moreover have "dict_keys s = {key. \<exists>row\<in>set datos. clave row = Inr key}"
    using indexar_claves [OF s] by (simp add: dict_keys_def)
  moreover have "\<forall>(key, row)\<in>set s. row \<in> set datos \<and> clave row = Inr key"
    using indexar_entradas [OF s] by auto
  moreover have "distinct (map clave datos) \<longrightarrow> map snd s = datos"
    using indexar_sin_colision [OF s] by (simp add: dict_keys_def)
  ultimately show "\<exists>snapshot. obtener_snapshot (actualizar_snapshot sheet datos) = Inr snapshot \<and>
         es_dict snapshot \<and>
         dict_keys snapshot = {key. \<exists>row\<in>set datos. clave row = Inr key} \<and>
         (\<forall>(key, row)\<in>set snapshot. row \<in> set datos \<and> clave row = Inr key) \<and>
         (distinct (map clave datos) \<longrightarrow> map snd snapshot = datos)"
    using s by (simp add: obtener_actualizar)
qed

text \<open>The round trip at two records with distinct keys.\<close>

theorem snapshot_ida_y_vuelta_witness:
  "2 \<le> length fila_a_antes \<and> 2 \<le> length fila_viejo \<and>
   distinct (map clave [fila_a_antes, fila_viejo]) \<and>
   obtener_snapshot (actualizar_snapshot [] [fila_a_antes, fila_viejo]) = Inr snapshot_anterior \<and>
   main_snapshot_nuevo [fila_a_antes, fila_viejo] = Inr snapshot_anterior \<and>
   map snd snapshot_anterior = [fila_a_antes, fila_viejo]"
proof -
  have wf: "\<forall>row\<in>set [fila_a_antes, fila_viejo]. 2 \<le> length row"
    by (simp add: fila_a_antes_def fila_viejo_def)
  have di: "distinct (map clave [fila_a_antes, fila_viejo])"
    by (simp add: fila_a_antes_def fila_viejo_def)
  have m: "main_snapshot_nuevo [fila_a_antes, fila_viejo] = Inr snapshot_anterior"
    by (simp add: main_snapshot_nuevo_def snapshot_anterior_def fila_a_antes_def fila_viejo_def)
  have v: "map snd snapshot_anterior = [fila_a_antes, fila_viejo]"
    by (simp add: snapshot_anterior_def)
  from snapshot_ida_y_vuelta [of "[]" "[fila_a_antes, fila_viejo]"] wf di m v
  show ?thesis by simp
qed

text \<open>
  C9 (the key is not injective). The rows with location \<open>a_b\<close>, name \<open>c\<close> and with location
  \<open>a\<close>, name \<open>b_c\<close> differ in both columns and have the same key \<open>a_b_c\<close>. Decoding a
  table that holds both keeps one entry, keying them in \<open>main\<close> keeps one entry, and the differ
  reports no change between a snapshot holding the first and an inventory holding the second.
\<close>

theorem clave_no_inyectiva:
  "clave fila_ab_c = clave fila_a_bc \<and>
   (fila_ab_c ! 0, fila_ab_c ! 1) = (''a_b'', ''c'') \<and>
   (fila_a_bc ! 0, fila_a_bc ! 1) = (''a'', ''b_c'') \<and>
   fila_ab_c ! 0 \<noteq> fila_a_bc ! 0 \<and> fila_ab_c ! 1 \<noteq> fila_a_bc ! 1 \<and>
   obtener_snapshot [header, fila_ab_c, fila_a_bc] = Inr [(''a_b_c'', fila_a_bc)] \<and>
   main_snapshot_nuevo [fila_ab_c, fila_a_bc] = Inr [(''a_b_c'', fila_a_bc)] \<and>
   main_snapshot_nuevo [fila_ab_c] = Inr [(''a_b_c'', fila_ab_c)] \<and>
   main_snapshot_nuevo [fila_a_bc] = Inr [(''a_b_c'', fila_a_bc)] \<and>
   comparar_snapshot [(''a_b_c'', fila_ab_c)] [(''a_b_c'', fila_a_bc)] = ([], [])"
  by (simp add: fila_ab_c_def fila_a_bc_def obtener_snapshot_def main_snapshot_nuevo_def
        comparar_snapshot_def dict_keys_def)

text \<open>
  C10 (last row wins). When \<open>obtener_snapshot\<close> or the keying in \<open>main\<close> returns a dictionary,
  it has one entry per key, and looking a key up gives the last row of the input (the first
  of the reversed input) that has this key; earlier rows with the key are not stored.
\<close>

theorem ultima_fila_gana:
  "(obtener_snapshot data = Inr snapshot \<longrightarrow>
      es_dict snapshot \<and>
      (\<forall>key. dict_get snapshot key =
               List.find (\<lambda>row. clave row = Inr key) (rev (drop 1 data)))) \<and>
   (main_snapshot_nuevo datos_actuales = Inr snapshot_nuevo \<longrightarrow>
      es_dict snapshot_nuevo \<and>
      (\<forall>key. dict_get snapshot_nuevo key =
               List.find (\<lambda>row. clave row = Inr key) (rev datos_actuales)))"
proof -
  have e: "es_dict ([] :: row dict)" by (simp add: es_dict_def)
  have g: "indexar [] rows = Inr s \<Longrightarrow>
             es_dict s \<and> (\<forall>key. dict_get s key = List.find (\<lambda>row. clave row = Inr key) (rev rows))"
    for rows s
    using indexar_ultimo [of "[]" rows s, OF _ e]
    by (auto simp: dict_get_def split: option.splits)
  have p1: "es_dict snapshot \<and> (\<forall>key. dict_get snapshot key =
               List.find (\<lambda>row. clave row = Inr key) (rev (drop 1 data)))"
    if a: "obtener_snapshot data = Inr snapshot"
  proof (cases "length data < 2")
    case True
    with a have "snapshot = []" by (simp add: obtener_snapshot_def)
    moreover from True have "drop 1 data = []" by (cases data) auto
    ultimately show ?thesis by (simp add: es_dict_def dict_get_def)
  next
    case False
    with a have "indexar [] (drop 1 data) = Inr snapshot" by (simp add: obtener_snapshot_def)
    then show ?thesis by (rule g)
  qed
  have p2: "es_dict snapshot_nuevo \<and> (\<forall>key. dict_get snapshot_nuevo key =
               List.find (\<lambda>row. clave row = Inr key) (rev datos_actuales))"
    if "main_snapshot_nuevo datos_actuales = Inr snapshot_nuevo"
  proof -
    from that have "indexar [] datos_actuales = Inr snapshot_nuevo"
      by (simp add: main_snapshot_nuevo_def)
    then show ?thesis by (rule g)
  qed
  from p1 p2 show ?thesis by blast
qed

text \<open>
  Three rows of which the first and the third share the key \<open>Root_a.txt\<close>: the third is kept,
  in the position of the first.
\<close>

theorem ultima_fila_gana_witness:
  "obtener_snapshot [header, fila_a_antes, fila_viejo, fila_a_despues] =
     Inr [(''Root_a.txt'', fila_a_despues), (''Root_viejo.txt'', fila_viejo)] \<and>
   main_snapshot_nuevo [fila_a_antes, fila_viejo, fila_a_despues] =
     Inr [(''Root_a.txt'', fila_a_despues), (''Root_viejo.txt'', fila_viejo)] \<and>
   es_dict [(''Root_a.txt'', fila_a_despues), (''Root_viejo.txt'', fila_viejo)] \<and>
   dict_get [(''Root_a.txt'', fila_a_despues), (''Root_viejo.txt'', fila_viejo)] ''Root_a.txt'' =
     List.find (\<lambda>row. clave row = Inr ''Root_a.txt'') [fila_a_despues, fila_viejo, fila_a_antes] \<and>
   List.find (\<lambda>row. clave row = Inr ''Root_a.txt'') [fila_a_despues, fila_viejo, fila_a_antes] =
     Some fila_a_despues \<and>
   fila_a_antes \<noteq> fila_a_despues"
proof -
  have o: "obtener_snapshot [header, fila_a_antes, fila_viejo, fila_a_despues] =
     Inr [(''Root_a.txt'', fila_a_despues), (''Root_viejo.txt'', fila_viejo)]"
    by (simp add: obtener_snapshot_def fila_a_antes_def fila_viejo_def fila_a_despues_def)
  have m: "main_snapshot_nuevo [fila_a_antes, fila_viejo, fila_a_despues] =
     Inr [(''Root_a.txt'', fila_a_despues), (''Root_viejo.txt'', fila_viejo)]"
    by (simp add: main_snapshot_nuevo_def fila_a_antes_def fila_viejo_def fila_a_despues_def)
  have f: "List.find (\<lambda>row. clave row = Inr ''Root_a.txt'') [fila_a_despues, fila_viejo, fila_a_antes] =
     Some fila_a_despues"
    by (simp add: fila_a_despues_def)
  have n: "fila_a_antes \<noteq> fila_a_despues"
    by (simp add: fila_a_antes_def fila_a_despues_def)
  from ultima_fila_gana [of "[header, fila_a_antes, fila_viejo, fila_a_despues]"
         "[(''Root_a.txt'', fila_a_despues), (''Root_viejo.txt'', fila_viejo)]"
         "[fila_a_antes, fila_viejo, fila_a_despues]"
         "[(''Root_a.txt'', fila_a_despues), (''Root_viejo.txt'', fila_viejo)]"] o m f n
  show ?thesis by simp
qed

section \<open>The walk: fuel and the item loop\<close>

lemma extend_assoc: "extend (extend a b) c = extend a (extend b c)"
  by (simp add: extend_def)

lemma extend_vacio [simp]: "extend ([], []) a = a" "extend a ([], []) = a"
  by (simp_all add: extend_def)

lemma fst_extend [simp]: "fst (extend a b) = fst a @ fst b"
  and snd_extend [simp]: "snd (extend a b) = snd a @ snd b"
  by (simp_all add: extend_def)

text \<open>The loop over the items of a page, when the recursive calls are known to carry over.\<close>

lemma bucle_items_traslado:
  assumes w: "\<And>p r out. bucle_paginas n E p r None = Some out \<Longrightarrow>
                 bucle_paginas m E p r None = Some out"
  shows "bucle_items n E r xs = Some out \<Longrightarrow> bucle_items m E r xs = Some out"
proof (induction xs arbitrary: out)
  case Nil
  then show ?case by simp
next
  case (Cons it xs)
  show ?case
  proof (cases "tipo_de it = ''Carpeta''")
    case True
    with Cons.prems obtain dentro resto where
      d: "bucle_paginas n E (item_id it) (r @ ''/'' @ name it) None = Some dentro" and
      rs: "bucle_items n E r xs = Some resto" and
      o: "out = extend (registro E r it) (extend dentro resto)"
      by (auto split: option.splits)
    from w [OF d] Cons.IH [OF rs] True o show ?thesis by simp
  next
    case False
    with Cons.prems obtain resto where
      rs: "bucle_items n E r xs = Some resto" and
      o: "out = extend (registro E r it) (extend ([], []) resto)"
      by (auto split: option.splits)
    from Cons.IH [OF rs] False o show ?thesis by simp
  qed
qed

lemma combustible_suc:
  "(bucle_paginas n E p r t = Some out \<longrightarrow> bucle_paginas (Suc n) E p r t = Some out)"
proof (induction n arbitrary: p r t out)
  case 0
  then show ?case by simp
next
  case (Suc n)
  have it: "bucle_items n E r' xs = Some o' \<Longrightarrow> bucle_items (Suc n) E r' xs = Some o'"
    for r' xs o'
  proof (rule bucle_items_traslado [where n = n])
    fix p0 r0 out0 assume "bucle_paginas n E p0 r0 None = Some out0"
    with Suc.IH [of p0 r0 None out0] show "bucle_paginas (Suc n) E p0 r0 None = Some out0"
      by blast
  qed
  show ?case
  proof
    assume a: "bucle_paginas (Suc n) E p r t = Some out"
    show "bucle_paginas (Suc (Suc n)) E p r t = Some out"
    proof (cases "files_list E p t")
      case (Inl e)
      with a show ?thesis by simp
    next
      case (Inr res)
      with a obtain pagina where
        pg: "bucle_items n E r (case files res of None \<Rightarrow> [] | Some fs \<Rightarrow> fs) = Some pagina"
        by (auto split: option.splits)
      note pg' = it [OF pg]
      show ?thesis
      proof (cases "nextPageToken res")
        case None
        with a Inr pg pg' show ?thesis by simp
      next
        case (Some tok)
        show ?thesis
        proof (cases "tok = []")
          case True
          with a Inr pg pg' Some show ?thesis by simp
        next
          case False
          with a Inr pg Some obtain resto where
            rs: "bucle_paginas n E p r (Some tok) = Some resto" and
            o: "out = extend pagina resto"
            by (auto split: option.splits)
          from Suc.IH [of p r "Some tok" resto] rs
          have "bucle_paginas (Suc n) E p r (Some tok) = Some resto" by blast
          with Inr pg' Some False o show ?thesis by simp
        qed
      qed
    qed
  qed
qed

lemma bucle_paginas_mono:
  "bucle_paginas n E p r t = Some out \<Longrightarrow> n \<le> m \<Longrightarrow> bucle_paginas m E p r t = Some out"
proof (induction m)
  case 0
  then show ?case by simp
next
  case (Suc m)
  show ?case
  proof (cases "n = Suc m")
    case True
    with Suc.prems show ?thesis by simp
  next
    case False
    with Suc have "bucle_paginas m E p r t = Some out" by simp
    with combustible_suc show ?thesis by blast
  qed
qed

lemma bucle_items_mono:
  "bucle_items n E r xs = Some out \<Longrightarrow> n \<le> m \<Longrightarrow> bucle_items m E r xs = Some out"
proof (rule bucle_items_traslado [where n = n])
  fix p0 r0 out0
  assume "n \<le> m" and "bucle_paginas n E p0 r0 None = Some out0"
  then show "bucle_paginas m E p0 r0 None = Some out0" by (rule bucle_paginas_mono [rotated])
qed

lemma obtener_archivos_mono:
  "obtener_archivos_recursivamente n E p r = Some out \<Longrightarrow> n \<le> m \<Longrightarrow>
     obtener_archivos_recursivamente m E p r = Some out"
  using bucle_paginas_mono [of n E p r None out m] by simp

lemma bucle_items_Cons:
  "bucle_items n E r (it # xs) =
     (case (if tipo_de it = ''Carpeta''
            then bucle_paginas n E (item_id it) (r @ ''/'' @ name it) None
            else Some ([], [])) of
        None \<Rightarrow> None
      | Some dentro \<Rightarrow>
          (case bucle_items n E r xs of
             None \<Rightarrow> None
           | Some resto \<Rightarrow> Some (extend (registro E r it) (extend dentro resto))))"
  by simp

lemma bucle_items_append:
  "bucle_items n E r (xs @ ys) =
     (case bucle_items n E r xs of
        None \<Rightarrow> None
      | Some a \<Rightarrow> (case bucle_items n E r ys of None \<Rightarrow> None | Some b \<Rightarrow> Some (extend a b)))"
proof (induction xs)
  case Nil
  show ?case by (cases "bucle_items n E r ys") simp_all
next
  case (Cons it xs)
  let ?d = "if tipo_de it = ''Carpeta''
            then bucle_paginas n E (item_id it) (r @ ''/'' @ name it) None
            else Some ([], [])"
  show ?case
  proof (cases ?d)
    case None
    then show ?thesis by (simp only: append_Cons bucle_items_Cons) simp
  next
    case d: (Some dentro)
    show ?thesis
    proof (cases "bucle_items n E r xs")
      case None
      with d Cons.IH show ?thesis by (simp only: append_Cons bucle_items_Cons) simp
    next
      case x: (Some a)
      show ?thesis
      proof (cases "bucle_items n E r ys")
        case None
        with d x Cons.IH show ?thesis by (simp only: append_Cons bucle_items_Cons) simp
      next
        case (Some b)
        with d x Cons.IH show ?thesis
          by (simp only: append_Cons bucle_items_Cons) (simp add: extend_assoc)
      qed
    qed
  qed
qed

section \<open>Pagination\<close>

lemma formatear_fecha_files_list [simp]:
  "formatear_fecha (E\<lparr>files_list := f\<rparr>) s = formatear_fecha E s"
  by (simp add: formatear_fecha_def split: sum.splits)

lemma registro_files_list [simp]: "registro (E\<lparr>files_list := f\<rparr>) r it = registro E r it"
  by (simp add: registro_def)

lemma paginas_a_items:
  "entrega (files_list E) p t xs \<Longrightarrow> bucle_paginas n E p r t = Some out \<Longrightarrow>
     \<exists>k<n. bucle_items k E r xs = Some out"
proof (induction arbitrary: n out rule: entrega.induct)
  case (ultima page_token res)
  then obtain k where n: "n = Suc k" by (cases n) auto
  from ultima n have "bucle_items k E r (case files res of None \<Rightarrow> [] | Some fs \<Rightarrow> fs) = Some out"
    by (auto split: option.splits)
  with n show ?case by auto
next
  case (siguiente page_token res tok resto)
  then obtain k where n: "n = Suc k" by (cases n) auto
  from siguiente.prems siguiente.hyps(1,2,3) n obtain pagina cola where
    pg: "bucle_items k E r (case files res of None \<Rightarrow> [] | Some fs \<Rightarrow> fs) = Some pagina" and
    cl: "bucle_paginas k E p r (Some tok) = Some cola" and
    o: "out = extend pagina cola"
    by (auto split: option.splits)
  from siguiente.IH [OF cl] obtain j where j: "j < k" "bucle_items j E r resto = Some cola"
    by blast
  from bucle_items_mono [OF j(2), of k] j(1) have "bucle_items k E r resto = Some cola" by simp
  with pg o have "bucle_items k E r ((case files res of None \<Rightarrow> [] | Some fs \<Rightarrow> fs) @ resto) = Some out"
    by (simp add: bucle_items_append)
  with n show ?case by auto
qed

lemma items_a_paginas:
  "entrega (files_list E) p t xs \<Longrightarrow> bucle_items k E r xs = Some out \<Longrightarrow>
     \<exists>n. bucle_paginas n E p r t = Some out"
proof (induction arbitrary: out rule: entrega.induct)
  case (ultima page_token res)
  then have "bucle_paginas (Suc k) E p r page_token = Some out" by auto
  then show ?case ..
next
  case (siguiente page_token res tok resto)
  from siguiente.prems obtain pagina cola where
    pg: "bucle_items k E r (case files res of None \<Rightarrow> [] | Some fs \<Rightarrow> fs) = Some pagina" and
    cl: "bucle_items k E r resto = Some cola" and
    o: "out = extend pagina cola"
    by (auto simp: bucle_items_append split: option.splits)
  from siguiente.IH [OF cl] obtain n where n: "bucle_paginas n E p r (Some tok) = Some cola" ..
  let ?m = "max n k"
  from bucle_paginas_mono [OF n, of ?m] have n': "bucle_paginas ?m E p r (Some tok) = Some cola"
    by simp
  from bucle_items_mono [OF pg, of ?m]
  have pg': "bucle_items ?m E r (case files res of None \<Rightarrow> [] | Some fs \<Rightarrow> fs) = Some pagina"
    by simp
  from siguiente.hyps(1,2,3) n' pg' o
  have "bucle_paginas (Suc ?m) E p r page_token = Some out" by simp
  then show ?case ..
qed

lemma bucle_items_a_otro:
  assumes w: "\<And>p r out. bucle_paginas n E p r None = Some out \<Longrightarrow>
                 \<exists>m. bucle_paginas m E' p r None = Some out"
    and rg: "\<And>r it. registro E' r it = registro E r it"
  shows "bucle_items n E r xs = Some out \<Longrightarrow> \<exists>m. bucle_items m E' r xs = Some out"
proof (induction xs arbitrary: out)
  case Nil
  then show ?case by simp
next
  case (Cons it xs)
  show ?case
  proof (cases "tipo_de it = ''Carpeta''")
    case True
    with Cons.prems obtain dentro resto where
      d: "bucle_paginas n E (item_id it) (r @ ''/'' @ name it) None = Some dentro" and
      rs: "bucle_items n E r xs = Some resto" and
      o: "out = extend (registro E r it) (extend dentro resto)"
      by (auto split: option.splits)
    from w [OF d] obtain m1 where
      m1: "bucle_paginas m1 E' (item_id it) (r @ ''/'' @ name it) None = Some dentro" ..
    from Cons.IH [OF rs] obtain m2 where m2: "bucle_items m2 E' r xs = Some resto" ..
    let ?m = "max m1 m2"
    from bucle_paginas_mono [OF m1, of ?m] bucle_items_mono [OF m2, of ?m] True o rg
    have "bucle_items ?m E' r (it # xs) = Some out" by simp
    then show ?thesis ..
  next
    case False
    with Cons.prems obtain resto where
      rs: "bucle_items n E r xs = Some resto" and
      o: "out = extend (registro E r it) (extend ([], []) resto)"
      by (auto split: option.splits)
    from Cons.IH [OF rs] obtain m2 where m2: "bucle_items m2 E' r xs = Some resto" ..
    with False o rg have "bucle_items m2 E' r (it # xs) = Some out" by simp
    then show ?thesis ..
  qed
qed

lemma paginado_a_unico:
  assumes h: "\<forall>parent_id. entrega (files_list E) parent_id None (hijos parent_id)"
  shows "bucle_paginas n E p r None = Some out \<Longrightarrow>
           \<exists>m. bucle_paginas m (E\<lparr>files_list := una_pagina hijos\<rparr>) p r None = Some out"
proof (induction n arbitrary: p r out rule: less_induct)
  case (less n)
  let ?E1 = "E\<lparr>files_list := una_pagina hijos\<rparr>"
  from h have "entrega (files_list E) p None (hijos p)" ..
  from paginas_a_items [OF this less.prems] obtain k where
    k: "k < n" "bucle_items k E r (hijos p) = Some out" by blast
  have "\<exists>m. bucle_items m ?E1 r (hijos p) = Some out"
  proof (rule bucle_items_a_otro [where n = k and E = E])
    fix p0 r0 out0 assume "bucle_paginas k E p0 r0 None = Some out0"
    then show "\<exists>m. bucle_paginas m ?E1 p0 r0 None = Some out0" by (rule less.IH [OF k(1)])
  next
    fix r0 it show "registro ?E1 r0 it = registro E r0 it" by simp
  next
    show "bucle_items k E r (hijos p) = Some out" by (rule k(2))
  qed
  then obtain m where "bucle_items m ?E1 r (hijos p) = Some out" ..
  moreover have "files_list ?E1 p None = Inr \<lparr>files = Some (hijos p), nextPageToken = None\<rparr>"
    by (simp add: una_pagina_def)
  ultimately have "bucle_paginas (Suc m) ?E1 p r None = Some out" by simp
  then show ?case ..
qed

lemma unico_a_paginado:
  assumes h: "\<forall>parent_id. entrega (files_list E) parent_id None (hijos parent_id)"
  shows "bucle_paginas n (E\<lparr>files_list := una_pagina hijos\<rparr>) p r None = Some out \<Longrightarrow>
           \<exists>m. bucle_paginas m E p r None = Some out"
proof (induction n arbitrary: p r out rule: less_induct)
  case (less n)
  let ?E1 = "E\<lparr>files_list := una_pagina hijos\<rparr>"
  from less.prems obtain k where n: "n = Suc k" by (cases n) auto
  have fl: "files_list ?E1 p None = Inr \<lparr>files = Some (hijos p), nextPageToken = None\<rparr>"
    by (simp add: una_pagina_def)
  from less.prems n fl have it: "bucle_items k ?E1 r (hijos p) = Some out"
    by (auto split: option.splits)
  have "\<exists>m. bucle_items m E r (hijos p) = Some out"
  proof (rule bucle_items_a_otro [where n = k and E = ?E1])
    fix p0 r0 out0 assume "bucle_paginas k ?E1 p0 r0 None = Some out0"
    then show "\<exists>m. bucle_paginas m E p0 r0 None = Some out0"
      using less.IH [of k] n by blast
  next
    fix r0 it show "registro E r0 it = registro ?E1 r0 it" by simp
  next
    show "bucle_items k ?E1 r (hijos p) = Some out" by (rule it)
  qed
  then obtain m where m: "bucle_items m E r (hijos p) = Some out" ..
  from h have "entrega (files_list E) p None (hijos p)" ..
  from items_a_paginas [OF this m] show ?case .
qed

text \<open>
  C4 (pagination transparency). Fix the sequence of children \<open>hijos\<close> of every container.
  If the listing service delivers, for every container, exactly that sequence split into
  pages joined by continuation tokens, then the walk returns a result with some fuel exactly
  when the walk over the service that delivers each container as one page returns it with
  some fuel: the same rows in the same order (and the same log records), and neither returns
  when the other does not.
\<close>

theorem paginacion_transparente:
  "\<forall>parent_id. entrega (files_list E) parent_id None (hijos parent_id) \<Longrightarrow>
     (\<exists>n. obtener_archivos_recursivamente n E parent_id ruta_actual = Some out) \<longleftrightarrow>
     (\<exists>m. obtener_archivos_recursivamente m (E\<lparr>files_list := una_pagina hijos\<rparr>)
             parent_id ruta_actual = Some out)"
  using paginado_a_unico [of E hijos _ parent_id ruta_actual out]
        unico_a_paginado [of E hijos _ parent_id ruta_actual out]
  by auto

lemma entrega_por_paginas_desde:
  assumes k: "0 < k"
  shows "entrega (por_paginas k hijos) p (if i = 0 then None else Some (replicate i CHR ''p''))
           (drop (i * k) (hijos p))"
proof (induction "length (hijos p) - i * k" arbitrary: i rule: less_induct)
  case less
  let ?tok = "if i = 0 then None else Some (replicate i CHR ''p'')"
  let ?resto = "drop (i * k) (hijos p)"
  have idx: "(case ?tok of None \<Rightarrow> 0 | Some t \<Rightarrow> length t) = i" by simp
  show ?case
  proof (cases "k < length ?resto")
    case False
    then have r: "por_paginas k hijos p ?tok = Inr \<lparr>files = Some (take k ?resto), nextPageToken = None\<rparr>"
      unfolding por_paginas_def Let_def idx by simp
    from False have tk: "take k ?resto = ?resto" by simp
    from entrega.ultima [of "por_paginas k hijos" p ?tok, OF r] tk show ?thesis by simp
  next
    case True
    then have r: "por_paginas k hijos p ?tok =
        Inr \<lparr>files = Some (take k ?resto), nextPageToken = Some (replicate (Suc i) CHR ''p'')\<rparr>"
      unfolding por_paginas_def Let_def idx by simp
    from True k have "length (hijos p) - Suc i * k < length (hijos p) - i * k" by simp
    from less [OF this] have
      ih: "entrega (por_paginas k hijos) p (Some (replicate (Suc i) CHR ''p'')) (drop (Suc i * k) (hijos p))"
      by simp
    have "take k ?resto @ drop (Suc i * k) (hijos p) = ?resto"
      using append_take_drop_id [of k ?resto] by (simp add: add.commute)
    with entrega.siguiente [of "por_paginas k hijos" p ?tok, OF r _ _ ih] show ?thesis by simp
  qed
qed

lemma entrega_por_paginas: "0 < k \<Longrightarrow> entrega (por_paginas k hijos) p None (hijos p)"
  using entrega_por_paginas_desde [of k hijos p 0] by simp

lemma bucle_items_solo_archivos:
  "\<forall>it\<in>set xs. tipo_de it \<noteq> ''Carpeta'' \<Longrightarrow>
     bucle_items n E r xs =
       Some (concat (map (\<lambda>it. fst (registro E r it)) xs),
             concat (map (\<lambda>it. snd (registro E r it)) xs))"
  by (induction xs) (simp_all add: extend_def)

lemma registro_archivo_n:
  "registro entorno_paginado ''Root'' (archivo_n i) = ([fila_250 i], [aviso_250])"
  by (simp add: registro_def formatear_fecha_def entorno_paginado_def archivo_n_def
        sin_fechas_def tipo_de_def propietario_de_def carpeta_mime_def fila_250_def aviso_250_def)

lemma tipo_archivo_n: "tipo_de (archivo_n i) \<noteq> ''Carpeta''"
  by (simp add: tipo_de_def archivo_n_def carpeta_mime_def)

lemma una_pagina_250:
  "obtener_archivos_recursivamente (Suc 0)
     (entorno_paginado\<lparr>files_list := una_pagina hijos_250\<rparr>) ''raiz'' ''Root'' = Some salida_250"
proof -
  let ?E = "entorno_paginado\<lparr>files_list := una_pagina hijos_250\<rparr>"
  have fl: "files_list ?E ''raiz'' None =
              Inr \<lparr>files = Some (map archivo_n [0..<250]), nextPageToken = None\<rparr>"
    by (simp add: una_pagina_def hijos_250_def)
  have "bucle_items 0 ?E ''Root'' (map archivo_n ns) =
          Some (map fila_250 ns, map (\<lambda>_. aviso_250) ns)" for ns
    using bucle_items_solo_archivos [of "map archivo_n ns" 0 ?E "''Root''"]
    by (simp add: tipo_archivo_n registro_archivo_n o_def)
  then have "bucle_items 0 ?E ''Root'' (map archivo_n [0..<250]) = Some salida_250"
    unfolding salida_250_def .
  with fl show ?thesis by simp
qed

text \<open>
  A container of 250 files listed in pages of 100 (the first page has 100 files and a
  continuation token): the paginated walk returns the 250 records of the single-page walk.
\<close>

theorem paginacion_transparente_witness:
  "length (hijos_250 ''raiz'') = 250 \<and>
   (\<forall>parent_id. entrega (files_list entorno_paginado) parent_id None (hijos_250 parent_id)) \<and>
   (case files_list entorno_paginado ''raiz'' None of
      Inl e \<Rightarrow> False
    | Inr res \<Rightarrow> map_option length (files res) = Some 100 \<and>
                  nextPageToken res = Some ''p'') \<and>
   obtener_archivos_recursivamente (Suc 0)
     (entorno_paginado\<lparr>files_list := una_pagina hijos_250\<rparr>) ''raiz'' ''Root'' = Some salida_250 \<and>
   (\<exists>n. obtener_archivos_recursivamente n entorno_paginado ''raiz'' ''Root'' = Some salida_250) \<and>
   length (fst salida_250) = 250"
proof -
  have h: "\<forall>parent_id. entrega (files_list entorno_paginado) parent_id None (hijos_250 parent_id)"
    by (simp add: entorno_paginado_def entrega_por_paginas)
  have l: "length (hijos_250 ''raiz'') = 250" by (simp add: hijos_250_def)
  have pg: "(case files_list entorno_paginado ''raiz'' None of
      Inl e \<Rightarrow> False
    | Inr res \<Rightarrow> map_option length (files res) = Some 100 \<and>
                  nextPageToken res = Some ''p'')"
    using l by (simp add: entorno_paginado_def por_paginas_def)
  have ls: "length (fst salida_250) = 250" by (simp add: salida_250_def)
  from paginacion_transparente [OF h, of "''raiz''" "''Root''" salida_250] una_pagina_250
  have "\<exists>n. obtener_archivos_recursivamente n entorno_paginado ''raiz'' ''Root'' = Some salida_250"
    by blast
  with h l pg ls una_pagina_250 show ?thesis by blast
qed

section \<open>Walks over two environments\<close>

lemma map_option_eq_cases:
  "map_option h a = map_option h b \<longleftrightarrow>
     (a = None \<and> b = None) \<or> (\<exists>x y. a = Some x \<and> b = Some y \<and> h x = h y)"
  by (cases a; cases b) auto

lemma bucle_items_rel:
  assumes hom: "\<And>a b a' b'. h a = h a' \<Longrightarrow> h b = h b' \<Longrightarrow> h (extend a b) = h (extend a' b')"
    and reg: "\<And>r it. h (registro E' r it) = h (registro E r it)"
    and w: "\<And>p r. map_option h (bucle_paginas n E p r None) =
                     map_option h (bucle_paginas n E' p r None)"
  shows "map_option h (bucle_items n E r xs) = map_option h (bucle_items n E' r xs)"
proof (induction xs)
  case Nil
  show ?case by simp
next
  case (Cons it xs)
  let ?d = "if tipo_de it = ''Carpeta''
            then bucle_paginas n E (item_id it) (r @ ''/'' @ name it) None
            else Some ([], [])"
  let ?d' = "if tipo_de it = ''Carpeta''
            then bucle_paginas n E' (item_id it) (r @ ''/'' @ name it) None
            else Some ([], [])"
  have dd: "map_option h ?d = map_option h ?d'" using w by simp
  from dd consider (ninguno) "?d = None" "?d' = None"
    | (ambos) x y where "?d = Some x" "?d' = Some y" "h x = h y"
    unfolding map_option_eq_cases by (elim disjE conjE exE) blast+
  then show ?case
  proof cases
    case ninguno
    then show ?thesis by (simp only: bucle_items_Cons) simp
  next
    case ambos
    from Cons.IH consider (n2) "bucle_items n E r xs = None" "bucle_items n E' r xs = None"
      | (a2) u v where "bucle_items n E r xs = Some u" "bucle_items n E' r xs = Some v" "h u = h v"
      unfolding map_option_eq_cases by (elim disjE conjE exE) blast+
    then show ?thesis
    proof cases
      case n2
      with ambos show ?thesis by (simp only: bucle_items_Cons) simp
    next
      case a2
      have "h (extend (registro E r it) (extend x u)) = h (extend (registro E' r it) (extend y v))"
      proof (rule hom)
        show "h (registro E r it) = h (registro E' r it)" by (simp add: reg)
        show "h (extend x u) = h (extend y v)" by (rule hom [OF ambos(3) a2(3)])
      qed
      with ambos a2 show ?thesis by (simp only: bucle_items_Cons) simp
    qed
  qed
qed

lemma bucle_paginas_rel:
  assumes hom: "\<And>a b a' b'. h a = h a' \<Longrightarrow> h b = h b' \<Longrightarrow> h (extend a b) = h (extend a' b')"
    and reg: "\<And>r it. h (registro E' r it) = h (registro E r it)"
    and ok: "\<And>p t res. files_list E p t = Inr res \<Longrightarrow> files_list E' p t = Inr res"
    and ko: "\<And>p t e r n. files_list E p t = Inl e \<Longrightarrow>
               map_option h (bucle_paginas (Suc n) E' p r t) =
               Some (h ([], [(ERROR, ''Error al listar archivos en la carpeta '' @ p @ '': '' @ e)]))"
  shows "map_option h (bucle_paginas n E p r t) = map_option h (bucle_paginas n E' p r t)"
proof (induction n arbitrary: p r t)
  case 0
  show ?case by simp
next
  case (Suc n)
  have its: "map_option h (bucle_items n E r0 xs) = map_option h (bucle_items n E' r0 xs)"
    for r0 xs
    by (rule bucle_items_rel [OF hom reg]) (simp_all add: Suc.IH)
  show ?case
  proof (cases "files_list E p t")
    case (Inl e)
    from Inl have l: "bucle_paginas (Suc n) E p r t =
        Some ([], [(ERROR, ''Error al listar archivos en la carpeta '' @ p @ '': '' @ e)])"
      by simp
    show ?thesis unfolding l ko [OF Inl] by (simp only: option.map)
  next
    case (Inr res)
    note Inr' = ok [OF Inr]
    let ?fs = "case files res of None \<Rightarrow> [] | Some fs \<Rightarrow> fs"
    from its [of r ?fs] consider (n1) "bucle_items n E r ?fs = None" "bucle_items n E' r ?fs = None"
      | (a1) u v where "bucle_items n E r ?fs = Some u" "bucle_items n E' r ?fs = Some v" "h u = h v"
      unfolding map_option_eq_cases by (elim disjE conjE exE) blast+
    then show ?thesis
    proof cases
      case n1
      with Inr Inr' show ?thesis by simp
    next
      case a1
      show ?thesis
      proof (cases "nextPageToken res")
        case None
        with a1 Inr Inr' show ?thesis by simp
      next
        case (Some tok)
        show ?thesis
        proof (cases "tok = []")
          case True
          with a1 Inr Inr' Some show ?thesis by simp
        next
          case False
          from Suc.IH [of p r "Some tok"]
          consider (n3) "bucle_paginas n E p r (Some tok) = None"
                        "bucle_paginas n E' p r (Some tok) = None"
            | (a3) x y where "bucle_paginas n E p r (Some tok) = Some x"
                        "bucle_paginas n E' p r (Some tok) = Some y" "h x = h y"
            unfolding map_option_eq_cases by (elim disjE conjE exE) blast+
          then show ?thesis
          proof cases
            case n3
            with a1 Inr Inr' Some False show ?thesis by simp
          next
            case a3
            from hom [OF a1(3) a3(3)] a1 a3 Inr Inr' Some False show ?thesis by simp
          qed
        qed
      qed
    qed
  qed
qed

lemma bucle_items_registro:
  assumes "bucle_items n E r (it # items) = Some out"
  shows "\<exists>resto. out = extend (registro E r it) resto"
proof -
  from assms obtain dentro resto where "out = extend (registro E r it) (extend dentro resto)"
    by (auto split: option.splits if_splits)
  then show ?thesis ..
qed

lemma registro_fila:
  "registro E r it =
     ([[r, name it, tipo_de it, propietario_de it,
        fst (formatear_fecha E (case createdTime it of Some t \<Rightarrow> t | None \<Rightarrow> ''No disponible''))]],
      snd (formatear_fecha E (case createdTime it of Some t \<Rightarrow> t | None \<Rightarrow> ''No disponible'')))"
  by (simp add: registro_def Let_def case_prod_beta)

lemma silenciar_rows:
  "map_option fst (bucle_paginas n E p r t) =
   map_option fst (bucle_paginas n (E\<lparr>files_list := silenciar (files_list E)\<rparr>) p r t)"
proof (rule bucle_paginas_rel)
  fix a b a' b' :: salida
  assume "fst a = fst a'" "fst b = fst b'"
  then show "fst (extend a b) = fst (extend a' b')" by simp
next
  fix r it
  show "fst (registro (E\<lparr>files_list := silenciar (files_list E)\<rparr>) r it) = fst (registro E r it)"
    by simp
next
  fix p t res assume "files_list E p t = Inr res"
  then show "files_list (E\<lparr>files_list := silenciar (files_list E)\<rparr>) p t = Inr res"
    by (simp add: silenciar_def)
next
  fix p t e r n assume "files_list E p t = Inl e"
  then have "files_list (E\<lparr>files_list := silenciar (files_list E)\<rparr>) p t =
               Inr \<lparr>files = Some [], nextPageToken = None\<rparr>"
    by (simp add: silenciar_def)
  then show "map_option fst (bucle_paginas (Suc n) (E\<lparr>files_list := silenciar (files_list E)\<rparr>) p r t) =
          Some (fst (([], [(ERROR, ''Error al listar archivos en la carpeta '' @ p @ '': '' @ e)]) :: salida))"
    by simp
qed

lemma strptime_no_detiene:
  "(bucle_paginas n E p r t = None) = (bucle_paginas n (E\<lparr>strptime := f\<rparr>) p r t = None)"
proof -
  have "map_option (\<lambda>_. ()) (bucle_paginas n E p r t) =
        map_option (\<lambda>_. ()) (bucle_paginas n (E\<lparr>strptime := f\<rparr>) p r t)"
    by (rule bucle_paginas_rel) simp_all
  then show ?thesis unfolding map_option_eq_cases by auto
qed

section \<open>Records of the walk\<close>

lemmas ejemplos_defs =
  item_a_def item_sub_def item_b_def item_roto_def fila_a_antes_def fila_sub_def fila_b_def
  fila_roto_def aviso_sub_def aviso_b_def error_roto_def error_raiz_def strptime_ejemplo_def
  registro_def formatear_fecha_def tipo_de_def propietario_de_def carpeta_mime_def extend_def

lemma fixture_raiz:
  "obtener_archivos_recursivamente (Suc (Suc 0)) entorno_fixture ''raiz'' ''Root'' =
     Some ([fila_a_antes, fila_sub, fila_b], [aviso_sub, aviso_b])"
  by (simp add: entorno_fixture_def ejemplos_defs)

lemma fixture_sub:
  "bucle_items (Suc 0) entorno_fixture ''Root'' [item_sub] =
     Some ([fila_sub, fila_b], [aviso_sub, aviso_b])"
  by (simp add: entorno_fixture_def ejemplos_defs)

lemma fallos_pagina:
  "bucle_items (Suc (Suc 0)) entorno_fallos ''Root'' [item_sub, item_roto, item_a] =
     Some ([fila_sub, fila_b, fila_roto, fila_a_antes], [aviso_sub, aviso_b, error_roto])"
  by (simp add: entorno_fallos_def ejemplos_defs)

lemma fallos_resto:
  "bucle_items (Suc (Suc 0)) entorno_fallos ''Root'' [item_a] = Some ([fila_a_antes], [])"
  by (simp add: entorno_fallos_def ejemplos_defs)

lemma fallos_raiz:
  "obtener_archivos_recursivamente (Suc (Suc (Suc 0))) entorno_fallos ''raiz'' ''Root'' =
     Some ([fila_sub, fila_b, fila_roto, fila_a_antes],
           [aviso_sub, aviso_b, error_roto, error_raiz])"
  by (simp add: entorno_fallos_def ejemplos_defs)

text \<open>
  C2 (walk order and locations). First the fixture: a root whose listing is a file
  \<open>a.txt\<close> and a folder \<open>sub\<close>, the folder's listing being a file \<open>b.txt\<close>. Walked with the
  label \<open>Root\<close> and fuel for two levels it returns three records, with the locations
  \<open>Root\<close>, \<open>Root\<close>, \<open>Root/sub\<close> and the names \<open>a.txt\<close>, \<open>sub\<close>, \<open>b.txt\<close>, in this order.
  Then the general rule: when the loop over the items of a page returns, the rows are the
  record of the first item, located at the current path and carrying the item's name, then,
  if the item is a folder, the rows of the walk of that folder at the current path extended
  by \<open>/\<close> and the folder's name, then the rows of the remaining items.
\<close>

theorem recorrido_preorden:
  "(files_list E raiz None = Inr \<lparr>files = Some [a, s], nextPageToken = None\<rparr> \<and>
    name a = ''a.txt'' \<and> tipo_de a = ''Archivo'' \<and>
    name s = ''sub'' \<and> tipo_de s = ''Carpeta'' \<and>
    files_list E (item_id s) None = Inr \<lparr>files = Some [b], nextPageToken = None\<rparr> \<and>
    name b = ''b.txt'' \<and> tipo_de b = ''Archivo'' \<longrightarrow>
      (\<exists>salida. obtener_archivos_recursivamente (Suc (Suc k)) E raiz ''Root'' = Some salida \<and>
         map (\<lambda>row. row ! 0) (fst salida) = [''Root'', ''Root'', ''Root/sub''] \<and>
         map (\<lambda>row. row ! 1) (fst salida) = [''a.txt'', ''sub'', ''b.txt''])) \<and>
   (bucle_items n E ruta_actual (it # items) = Some salida' \<longrightarrow>
      (\<exists>fecha dentro resto.
         (if tipo_de it = ''Carpeta''
          then obtener_archivos_recursivamente n E (item_id it) (ruta_actual @ ''/'' @ name it)
                 = Some dentro
          else dentro = ([], [])) \<and>
         bucle_items n E ruta_actual items = Some resto \<and>
         fst salida' =
           [ruta_actual, name it, tipo_de it, propietario_de it, fecha] # fst dentro @ fst resto))"
proof (intro conjI impI)
  assume h: "files_list E raiz None = Inr \<lparr>files = Some [a, s], nextPageToken = None\<rparr> \<and>
    name a = ''a.txt'' \<and> tipo_de a = ''Archivo'' \<and>
    name s = ''sub'' \<and> tipo_de s = ''Carpeta'' \<and>
    files_list E (item_id s) None = Inr \<lparr>files = Some [b], nextPageToken = None\<rparr> \<and>
    name b = ''b.txt'' \<and> tipo_de b = ''Archivo''"
  have pb: "bucle_items k E ''Root/sub'' [b] = Some (registro E ''Root/sub'' b)"
    using h by simp
  have ps: "obtener_archivos_recursivamente (Suc k) E (item_id s) ''Root/sub'' =
              Some (registro E ''Root/sub'' b)"
    using h pb by simp
  have pr: "bucle_items (Suc k) E ''Root'' [a, s] =
              Some (extend (registro E ''Root'' a)
                     (extend (registro E ''Root'' s) (registro E ''Root/sub'' b)))"
    using h ps by (simp del: obtener_archivos_recursivamente.simps bucle_paginas.simps)
  let ?X = "extend (registro E ''Root'' a)
              (extend (registro E ''Root'' s) (registro E ''Root/sub'' b))"
  have w: "obtener_archivos_recursivamente (Suc (Suc k)) E raiz ''Root'' = Some ?X"
    using h pr by (simp del: bucle_items.simps)
  have m0: "map (\<lambda>row. row ! 0) (fst ?X) = [''Root'', ''Root'', ''Root/sub'']"
    by (simp add: registro_fila)
  have m1: "map (\<lambda>row. row ! 1) (fst ?X) = [''a.txt'', ''sub'', ''b.txt'']"
    using h by (simp add: registro_fila)
  show "\<exists>salida. obtener_archivos_recursivamente (Suc (Suc k)) E raiz ''Root'' = Some salida \<and>
         map (\<lambda>row. row ! 0) (fst salida) = [''Root'', ''Root'', ''Root/sub''] \<and>
         map (\<lambda>row. row ! 1) (fst salida) = [''a.txt'', ''sub'', ''b.txt'']"
    by (rule exI [of _ ?X]) (intro conjI w m0 m1)
next
  assume a: "bucle_items n E ruta_actual (it # items) = Some salida'"
  let ?fecha = "fst (formatear_fecha E
                  (case createdTime it of Some t \<Rightarrow> t | None \<Rightarrow> ''No disponible''))"
  show "\<exists>fecha dentro resto.
         (if tipo_de it = ''Carpeta''
          then obtener_archivos_recursivamente n E (item_id it) (ruta_actual @ ''/'' @ name it)
                 = Some dentro
          else dentro = ([], [])) \<and>
         bucle_items n E ruta_actual items = Some resto \<and>
         fst salida' =
           [ruta_actual, name it, tipo_de it, propietario_de it, fecha] # fst dentro @ fst resto"
  proof (cases "tipo_de it = ''Carpeta''")
    case True
    with a obtain dentro resto where
      d: "obtener_archivos_recursivamente n E (item_id it) (ruta_actual @ ''/'' @ name it) = Some dentro" and
      rs: "bucle_items n E ruta_actual items = Some resto" and
      o: "salida' = extend (registro E ruta_actual it) (extend dentro resto)"
      by (auto split: option.splits)
    from o have "fst salida' =
        [ruta_actual, name it, tipo_de it, propietario_de it, ?fecha] # fst dentro @ fst resto"
      by (simp add: registro_fila)
    moreover from True d have "if tipo_de it = ''Carpeta''
          then obtener_archivos_recursivamente n E (item_id it) (ruta_actual @ ''/'' @ name it)
                 = Some dentro
          else dentro = ([], [])" by (simp only: if_True simp_thms)
    ultimately show ?thesis using rs by (intro exI [of _ ?fecha] exI [of _ dentro] exI [of _ resto] conjI)
  next
    case False
    with a obtain resto where
      rs: "bucle_items n E ruta_actual items = Some resto" and
      o: "salida' = extend (registro E ruta_actual it) (extend ([], []) resto)"
      by (auto split: option.splits)
    from o have "fst salida' =
        [ruta_actual, name it, tipo_de it, propietario_de it, ?fecha] # fst (([], []) :: salida) @ fst resto"
      by (simp add: registro_fila)
    moreover from False have "if tipo_de it = ''Carpeta''
          then obtener_archivos_recursivamente n E (item_id it) (ruta_actual @ ''/'' @ name it)
                 = Some (([], []) :: salida)
          else (([], []) :: salida) = ([], [])" by (simp only: if_False simp_thms)
    ultimately show ?thesis using rs
      by (intro exI [of _ ?fecha] exI [of _ "([], [])"] exI [of _ resto] conjI)
  qed
qed

text \<open>
  The fixture tree, walked from \<open>raiz\<close>; and the general rule at the folder \<open>sub\<close>, whose
  own record comes before the record of \<open>b.txt\<close> inside it.
\<close>

theorem recorrido_preorden_witness:
  "files_list entorno_fixture ''raiz'' None =
     Inr \<lparr>files = Some [item_a, item_sub], nextPageToken = None\<rparr> \<and>
   files_list entorno_fixture (item_id item_sub) None =
     Inr \<lparr>files = Some [item_b], nextPageToken = None\<rparr> \<and>
   tipo_de item_a = ''Archivo'' \<and> tipo_de item_sub = ''Carpeta'' \<and> tipo_de item_b = ''Archivo'' \<and>
   (\<exists>salida. obtener_archivos_recursivamente (Suc (Suc 0)) entorno_fixture ''raiz'' ''Root''
        = Some salida \<and>
      map (\<lambda>row. row ! 0) (fst salida) = [''Root'', ''Root'', ''Root/sub''] \<and>
      map (\<lambda>row. row ! 1) (fst salida) = [''a.txt'', ''sub'', ''b.txt'']) \<and>
   obtener_archivos_recursivamente (Suc (Suc 0)) entorno_fixture ''raiz'' ''Root'' =
     Some ([fila_a_antes, fila_sub, fila_b], [aviso_sub, aviso_b]) \<and>
   bucle_items (Suc 0) entorno_fixture ''Root'' [item_sub] =
     Some ([fila_sub, fila_b], [aviso_sub, aviso_b]) \<and>
   (\<exists>fecha dentro resto.
      obtener_archivos_recursivamente (Suc 0) entorno_fixture ''id-sub'' ''Root/sub'' = Some dentro \<and>
      bucle_items (Suc 0) entorno_fixture ''Root'' [] = Some resto \<and>
      [fila_sub, fila_b] = [''Root'', ''sub'', ''Carpeta'', ''Desconocido'', fecha] # fst dentro @ fst resto)"
proof -
  have f1: "files_list entorno_fixture ''raiz'' None =
     Inr \<lparr>files = Some [item_a, item_sub], nextPageToken = None\<rparr>"
    by (simp add: entorno_fixture_def)
  have f2: "files_list entorno_fixture (item_id item_sub) None =
     Inr \<lparr>files = Some [item_b], nextPageToken = None\<rparr>"
    by (simp add: entorno_fixture_def item_sub_def)
  have t: "tipo_de item_a = ''Archivo''" "tipo_de item_sub = ''Carpeta''" "tipo_de item_b = ''Archivo''"
    by (simp_all add: ejemplos_defs)
  have nm: "name item_a = ''a.txt''" "name item_sub = ''sub''" "name item_b = ''b.txt''"
    by (simp_all add: ejemplos_defs)
  have pr: "propietario_de item_sub = ''Desconocido''" "item_id item_sub = ''id-sub''"
    by (simp_all add: ejemplos_defs)
  have ap: "''Root'' @ ''/'' @ ''sub'' = ''Root/sub''" by simp
  note th = recorrido_preorden [of entorno_fixture "''raiz''" item_a item_sub item_b 0
         "Suc 0" "''Root''" item_sub "[]" "([fila_sub, fila_b], [aviso_sub, aviso_b])"]
  have hyp: "files_list entorno_fixture ''raiz'' None =
        Inr \<lparr>files = Some [item_a, item_sub], nextPageToken = None\<rparr> \<and>
      name item_a = ''a.txt'' \<and> tipo_de item_a = ''Archivo'' \<and>
      name item_sub = ''sub'' \<and> tipo_de item_sub = ''Carpeta'' \<and>
      files_list entorno_fixture (item_id item_sub) None =
        Inr \<lparr>files = Some [item_b], nextPageToken = None\<rparr> \<and>
      name item_b = ''b.txt'' \<and> tipo_de item_b = ''Archivo''"
    by (intro conjI f1 f2 t nm)
  from th [THEN conjunct1, THEN mp, OF hyp]
  have c1: "\<exists>salida. obtener_archivos_recursivamente (Suc (Suc 0)) entorno_fixture ''raiz'' ''Root''
        = Some salida \<and>
      map (\<lambda>row. row ! 0) (fst salida) = [''Root'', ''Root'', ''Root/sub''] \<and>
      map (\<lambda>row. row ! 1) (fst salida) = [''a.txt'', ''sub'', ''b.txt'']" .
  from th [THEN conjunct2, THEN mp, OF fixture_sub]
  have c2: "\<exists>fecha dentro resto.
      obtener_archivos_recursivamente (Suc 0) entorno_fixture ''id-sub'' ''Root/sub'' = Some dentro \<and>
      bucle_items (Suc 0) entorno_fixture ''Root'' [] = Some resto \<and>
      [fila_sub, fila_b] = [''Root'', ''sub'', ''Carpeta'', ''Desconocido'', fecha] # fst dentro @ fst resto"
    by (simp only: t nm pr ap if_True simp_thms fst_conv)
  show ?thesis by (intro conjI f1 f2 t c1 c2 fixture_raiz fixture_sub)
qed

section \<open>Failing listing calls\<close>

lemma fallo_en_pagina:
  "files_list E p t = Inl e \<Longrightarrow>
     bucle_paginas (Suc n) E p r t =
       Some ([], [(ERROR, ''Error al listar archivos en la carpeta '' @ p @ '': '' @ e)])"
  by simp

lemma fallo_tras_pagina:
  assumes "files_list E p t0 = Inr res" "nextPageToken res = Some tok" "tok \<noteq> []"
    and "files_list E p (Some tok) = Inl e"
    and "bucle_items (Suc n) E r (case files res of None \<Rightarrow> [] | Some fs \<Rightarrow> fs) = Some pagina"
  shows "bucle_paginas (Suc (Suc n)) E p r t0 =
           Some (fst pagina,
                 snd pagina @ [(ERROR, ''Error al listar archivos en la carpeta '' @ p @ '': '' @ e)])"
proof -
  from assms(4) have "bucle_paginas (Suc n) E p r (Some tok) =
      Some ([], [(ERROR, ''Error al listar archivos en la carpeta '' @ p @ '': '' @ e)])"
    by (rule fallo_en_pagina)
  with assms(1,2,3,5) show ?thesis
    by (simp add: extend_def del: bucle_items.simps)
qed

lemma fallo_en_subcarpeta:
  assumes "tipo_de it = ''Carpeta''" "files_list E (item_id it) None = Inl e"
    and "bucle_items (Suc n) E r items = Some resto"
  shows "bucle_items (Suc n) E r (it # items) =
           Some (fst (registro E r it) @ fst resto,
                 snd (registro E r it) @
                 [(ERROR, ''Error al listar archivos en la carpeta '' @ item_id it @ '': '' @ e)] @
                 snd resto)"
proof -
  from assms(2) have "bucle_paginas (Suc n) E (item_id it) (r @ ''/'' @ name it) None =
      Some ([], [(ERROR, ''Error al listar archivos en la carpeta '' @ item_id it @ '': '' @ e)])"
    by (rule fallo_en_pagina)
  with assms(1,3) show ?thesis
    by (simp only: bucle_items_Cons) (simp add: extend_def)
qed

text \<open>
  C5 (partial-failure tolerance). A listing call that raises makes the page loop of that
  container return at once, with no rows and one error record in the log, whatever the fuel:
  no further page is requested and nothing is raised. When the call for a later page fails,
  the rows and log records of the earlier pages, with the subfolders walked from them, are
  returned followed by the error record. A folder whose listing fails contributes its own
  record and the error record, and the loop goes on with the remaining items of its parent.
  Over the whole tree, the rows of the walk, and whether it returns, are those of the walk
  over the service in which every failing call is an empty last page.
\<close>

theorem tolerancia_fallo_listado:
  "(files_list E p t = Inl e \<longrightarrow>
      bucle_paginas (Suc n) E p r t =
        Some ([], [(ERROR, ''Error al listar archivos en la carpeta '' @ p @ '': '' @ e)])) \<and>
   (files_list E p t0 = Inr res \<and> nextPageToken res = Some tok \<and> tok \<noteq> [] \<and>
    files_list E p (Some tok) = Inl e \<and>
    bucle_items (Suc n) E r (case files res of None \<Rightarrow> [] | Some fs \<Rightarrow> fs) = Some pagina \<longrightarrow>
      bucle_paginas (Suc (Suc n)) E p r t0 =
        Some (fst pagina,
              snd pagina @ [(ERROR, ''Error al listar archivos en la carpeta '' @ p @ '': '' @ e)])) \<and>
   (tipo_de it = ''Carpeta'' \<and> files_list E (item_id it) None = Inl e' \<and>
    bucle_items (Suc n) E r items = Some resto \<longrightarrow>
      bucle_items (Suc n) E r (it # items) =
        Some (fst (registro E r it) @ fst resto,
              snd (registro E r it) @
              [(ERROR, ''Error al listar archivos en la carpeta '' @ item_id it @ '': '' @ e')] @
              snd resto)) \<and>
   map_option fst (obtener_archivos_recursivamente m E q r') =
   map_option fst (obtener_archivos_recursivamente m (E\<lparr>files_list := silenciar (files_list E)\<rparr>) q r')"
proof (intro conjI impI)
  assume "files_list E p t = Inl e"
  then show "bucle_paginas (Suc n) E p r t =
        Some ([], [(ERROR, ''Error al listar archivos en la carpeta '' @ p @ '': '' @ e)])"
    by (rule fallo_en_pagina)
next
  assume "files_list E p t0 = Inr res \<and> nextPageToken res = Some tok \<and> tok \<noteq> [] \<and>
    files_list E p (Some tok) = Inl e \<and>
    bucle_items (Suc n) E r (case files res of None \<Rightarrow> [] | Some fs \<Rightarrow> fs) = Some pagina"
  then show "bucle_paginas (Suc (Suc n)) E p r t0 =
        Some (fst pagina,
              snd pagina @ [(ERROR, ''Error al listar archivos en la carpeta '' @ p @ '': '' @ e)])"
    by (intro fallo_tras_pagina) (erule conjE | assumption)+
next
  assume "tipo_de it = ''Carpeta'' \<and> files_list E (item_id it) None = Inl e' \<and>
    bucle_items (Suc n) E r items = Some resto"
  then show "bucle_items (Suc n) E r (it # items) =
        Some (fst (registro E r it) @ fst resto,
              snd (registro E r it) @
              [(ERROR, ''Error al listar archivos en la carpeta '' @ item_id it @ '': '' @ e')] @
              snd resto)"
    by (intro fallo_en_subcarpeta) (erule conjE | assumption)+
next
  show "map_option fst (obtener_archivos_recursivamente m E q r') =
   map_option fst (obtener_archivos_recursivamente m (E\<lparr>files_list := silenciar (files_list E)\<rparr>) q r')"
    using silenciar_rows [of m E q r' None] by simp
qed

text \<open>
  The tree with failures: the second page of the root fails after a first page that holds
  the folder \<open>sub\<close> (walked), the folder \<open>roto\<close> (its listing fails) and \<open>a.txt\<close>. All four
  records are returned, the two error records are logged, and the rows are those of the walk
  over the silenced service.
\<close>

theorem tolerancia_fallo_listado_witness:
  "files_list entorno_fallos ''raiz'' (Some ''t2'') = Inl ''HttpError 500'' \<and>
   files_list entorno_fallos ''raiz'' None =
     Inr \<lparr>files = Some [item_sub, item_roto, item_a], nextPageToken = Some ''t2''\<rparr> \<and>
   tipo_de item_roto = ''Carpeta'' \<and>
   files_list entorno_fallos (item_id item_roto) None = Inl ''HttpError 500'' \<and>
   bucle_paginas (Suc (Suc 0)) entorno_fallos ''raiz'' ''Root'' (Some ''t2'') =
     Some ([], [error_raiz]) \<and>
   bucle_paginas (Suc (Suc (Suc 0))) entorno_fallos ''raiz'' ''Root'' None =
     Some ([fila_sub, fila_b, fila_roto, fila_a_antes],
           [aviso_sub, aviso_b, error_roto, error_raiz]) \<and>
   bucle_items (Suc (Suc 0)) entorno_fallos ''Root'' [item_roto, item_a] =
     Some ([fila_roto, fila_a_antes], [error_roto]) \<and>
   map_option fst
     (obtener_archivos_recursivamente (Suc (Suc (Suc 0)))
        (entorno_fallos\<lparr>files_list := silenciar (files_list entorno_fallos)\<rparr>) ''raiz'' ''Root'') =
     Some [fila_sub, fila_b, fila_roto, fila_a_antes]"
proof -
  have f1: "files_list entorno_fallos ''raiz'' (Some ''t2'') = Inl ''HttpError 500''"
    by (simp add: entorno_fallos_def)
  have f2: "files_list entorno_fallos ''raiz'' None =
     Inr \<lparr>files = Some [item_sub, item_roto, item_a], nextPageToken = Some ''t2''\<rparr>"
    by (simp add: entorno_fallos_def)
  have f3: "tipo_de item_roto = ''Carpeta''" by (simp add: ejemplos_defs)
  have f4: "files_list entorno_fallos (item_id item_roto) None = Inl ''HttpError 500''"
    by (simp add: entorno_fallos_def item_roto_def)
  have rr: "registro entorno_fallos ''Root'' item_roto = ([fila_roto], [])"
    "item_id item_roto = ''id-roto''"
    by (simp_all add: entorno_fallos_def ejemplos_defs)
  note th = tolerancia_fallo_listado [of entorno_fallos "''raiz''" "Some ''t2''" "''HttpError 500''"
      "Suc 0" "''Root''" None
      "\<lparr>files = Some [item_sub, item_roto, item_a], nextPageToken = Some ''t2''\<rparr>" "''t2''"
      "([fila_sub, fila_b, fila_roto, fila_a_antes], [aviso_sub, aviso_b, error_roto])"
      item_roto "''HttpError 500''" "[item_a]" "([fila_a_antes], [])"
      "Suc (Suc (Suc 0))" "''raiz''" "''Root''"]
  from th [THEN conjunct1, THEN mp, OF f1]
  have c1: "bucle_paginas (Suc (Suc 0)) entorno_fallos ''raiz'' ''Root'' (Some ''t2'') =
     Some ([], [error_raiz])"
    by (simp add: error_raiz_def error_roto_def rr
          del: bucle_paginas.simps bucle_items.simps obtener_archivos_recursivamente.simps)
  have h2: "files_list entorno_fallos ''raiz'' None =
      Inr \<lparr>files = Some [item_sub, item_roto, item_a], nextPageToken = Some ''t2''\<rparr> \<and>
    nextPageToken \<lparr>files = Some [item_sub, item_roto, item_a], nextPageToken = Some ''t2''\<rparr> = Some ''t2'' \<and>
    ''t2'' \<noteq> [] \<and> files_list entorno_fallos ''raiz'' (Some ''t2'') = Inl ''HttpError 500'' \<and>
    bucle_items (Suc (Suc 0)) entorno_fallos ''Root''
      (case files \<lparr>files = Some [item_sub, item_roto, item_a], nextPageToken = Some ''t2''\<rparr> of
         None \<Rightarrow> [] | Some fs \<Rightarrow> fs) =
      Some ([fila_sub, fila_b, fila_roto, fila_a_antes], [aviso_sub, aviso_b, error_roto])"
    using f1 f2 fallos_pagina by simp
  from th [THEN conjunct2, THEN conjunct1, THEN mp, OF h2]
  have c2: "bucle_paginas (Suc (Suc (Suc 0))) entorno_fallos ''raiz'' ''Root'' None =
     Some ([fila_sub, fila_b, fila_roto, fila_a_antes],
           [aviso_sub, aviso_b, error_roto, error_raiz])"
    by (simp add: error_raiz_def error_roto_def rr
          del: bucle_paginas.simps bucle_items.simps obtener_archivos_recursivamente.simps)
  have h3: "tipo_de item_roto = ''Carpeta'' \<and>
    files_list entorno_fallos (item_id item_roto) None = Inl ''HttpError 500'' \<and>
    bucle_items (Suc (Suc 0)) entorno_fallos ''Root'' [item_a] = Some ([fila_a_antes], [])"
    by (intro conjI f3 f4 fallos_resto)
  from th [THEN conjunct2, THEN conjunct2, THEN conjunct1, THEN mp, OF h3]
  have c3: "bucle_items (Suc (Suc 0)) entorno_fallos ''Root'' [item_roto, item_a] =
     Some ([fila_roto, fila_a_antes], [error_roto])"
    by (simp add: error_raiz_def error_roto_def rr
          del: bucle_paginas.simps bucle_items.simps obtener_archivos_recursivamente.simps)
  from th [THEN conjunct2, THEN conjunct2, THEN conjunct2]
  have c4: "map_option fst
     (obtener_archivos_recursivamente (Suc (Suc (Suc 0)))
        (entorno_fallos\<lparr>files_list := silenciar (files_list entorno_fallos)\<rparr>) ''raiz'' ''Root'') =
     Some [fila_sub, fila_b, fila_roto, fila_a_antes]"
    by (simp only: fallos_raiz option.map fst_conv)
  show ?thesis by (intro conjI f1 f2 f3 f4 c1 c2 c3 c4)
qed

section \<open>Timestamps and owners\<close>

lemma registro_fecha_fallida:
  "createdTime it = Some ts \<Longrightarrow> strptime E ts = Inl e \<Longrightarrow>
     registro E r it =
       ([[r, name it, tipo_de it, propietario_de it, ts]],
        [(WARNING, ''No se pudo formatear la fecha '' @ ts @ '': '' @ e)])"
  by (simp add: registro_def formatear_fecha_def)

lemma registro_fecha_convertida:
  "createdTime it = Some ts \<Longrightarrow> strptime E ts = Inr fecha_obj \<Longrightarrow>
     registro E r it = ([[r, name it, tipo_de it, propietario_de it, strftime E fecha_obj]], [])"
  by (simp add: registro_def formatear_fecha_def)

text \<open>
  C7 (timestamp fallback). For an item whose \<open>createdTime\<close> is rejected by \<open>strptime\<close>, the
  record built for it keeps the timestamp string unchanged in its last column, and one
  warning is logged; for an item whose timestamp is accepted the last column is the parsed
  value formatted by \<open>strftime\<close>, and nothing is logged. The record built this way is the one
  the loop over the items returns first for that item, and whether the walk returns at all
  does not depend on what \<open>strptime\<close> does: a parse failure never stops it.
\<close>

theorem fecha_no_convertible:
  "(createdTime it = Some ts \<and> strptime E ts = Inl e \<longrightarrow>
      registro E r it =
        ([[r, name it, tipo_de it, propietario_de it, ts]],
         [(WARNING, ''No se pudo formatear la fecha '' @ ts @ '': '' @ e)])) \<and>
   (createdTime it' = Some ts' \<and> strptime E ts' = Inr fecha_obj \<longrightarrow>
      registro E r it' =
        ([[r, name it', tipo_de it', propietario_de it', strftime E fecha_obj]], [])) \<and>
   (bucle_items n E r (it # items) = Some salida \<longrightarrow>
      (\<exists>resto. salida = extend (registro E r it) resto)) \<and>
   ((obtener_archivos_recursivamente m E p r' = None) =
    (obtener_archivos_recursivamente m (E\<lparr>strptime := f\<rparr>) p r' = None))"
proof (intro conjI impI)
  assume "createdTime it = Some ts \<and> strptime E ts = Inl e"
  then show "registro E r it =
        ([[r, name it, tipo_de it, propietario_de it, ts]],
         [(WARNING, ''No se pudo formatear la fecha '' @ ts @ '': '' @ e)])"
    by (intro registro_fecha_fallida) (erule conjE | assumption)+
next
  assume "createdTime it' = Some ts' \<and> strptime E ts' = Inr fecha_obj"
  then show "registro E r it' =
        ([[r, name it', tipo_de it', propietario_de it', strftime E fecha_obj]], [])"
    by (intro registro_fecha_convertida) (erule conjE | assumption)+
next
  assume "bucle_items n E r (it # items) = Some salida"
  then show "\<exists>resto. salida = extend (registro E r it) resto"
    by (rule bucle_items_registro)
next
  show "(obtener_archivos_recursivamente m E p r' = None) =
    (obtener_archivos_recursivamente m (E\<lparr>strptime := f\<rparr>) p r' = None)"
    using strptime_no_detiene [of m E p r' None f] by simp
qed

text \<open>
  The folder \<open>sub\<close> of the fixture has the timestamp \<open>ayer\<close>, which the parser rejects: its
  record ends in \<open>ayer\<close>. The file \<open>a.txt\<close> has a well-formed timestamp, which is reformatted.
\<close>

theorem fecha_no_convertible_witness:
  "createdTime item_sub = Some ''ayer'' \<and>
   strptime entorno_fixture ''ayer'' = Inl ''time data ayer does not match format'' \<and>
   registro entorno_fixture ''Root'' item_sub = ([fila_sub], [aviso_sub]) \<and>
   fila_sub ! 4 = ''ayer'' \<and>
   createdTime item_a = Some ''2024-02-01T03:04:05.678Z'' \<and>
   strptime entorno_fixture ''2024-02-01T03:04:05.678Z'' = Inr ''01/02/2024 03:04:05'' \<and>
   registro entorno_fixture ''Root'' item_a = ([fila_a_antes], []) \<and>
   fila_a_antes ! 4 = ''01/02/2024 03:04:05'' \<and>
   bucle_items (Suc 0) entorno_fixture ''Root'' [item_sub] =
     Some ([fila_sub, fila_b], [aviso_sub, aviso_b]) \<and>
   (\<exists>resto. ([fila_sub, fila_b], [aviso_sub, aviso_b]) =
        extend (registro entorno_fixture ''Root'' item_sub) resto)"
proof -
  have c: "createdTime item_sub = Some ''ayer''"
    "createdTime item_a = Some ''2024-02-01T03:04:05.678Z''"
    by (simp_all add: item_sub_def item_a_def)
  have p: "strptime entorno_fixture ''ayer'' = Inl ''time data ayer does not match format''"
    "strptime entorno_fixture ''2024-02-01T03:04:05.678Z'' = Inr ''01/02/2024 03:04:05''"
    by (simp_all add: entorno_fixture_def strptime_ejemplo_def)
  have v: "fila_sub ! 4 = ''ayer''" "fila_a_antes ! 4 = ''01/02/2024 03:04:05''"
    by (simp_all add: fila_sub_def fila_a_antes_def)
  have q: "[[''Root'', name item_sub, tipo_de item_sub, propietario_de item_sub, ''ayer'']] = [fila_sub]"
    "[(WARNING, ''No se pudo formatear la fecha '' @ ''ayer'' @ '': '' @
         ''time data ayer does not match format'')] = [aviso_sub]"
    "[[''Root'', name item_a, tipo_de item_a, propietario_de item_a,
       strftime entorno_fixture ''01/02/2024 03:04:05'']] = [fila_a_antes]"
    by (simp_all add: entorno_fixture_def ejemplos_defs)
  note th = fecha_no_convertible [of item_sub "''ayer''" entorno_fixture
      "''time data ayer does not match format''" "''Root''"
      item_a "''2024-02-01T03:04:05.678Z''" "''01/02/2024 03:04:05''"
      "Suc 0" "[]" "([fila_sub, fila_b], [aviso_sub, aviso_b])"]
  from th [THEN conjunct1, THEN mp, OF conjI [OF c(1) p(1)]]
  have r1: "registro entorno_fixture ''Root'' item_sub = ([fila_sub], [aviso_sub])"
    by (simp only: q)
  from th [THEN conjunct2, THEN conjunct1, THEN mp, OF conjI [OF c(2) p(2)]]
  have r2: "registro entorno_fixture ''Root'' item_a = ([fila_a_antes], [])"
    by (simp only: q)
  from th [THEN conjunct2, THEN conjunct2, THEN conjunct1, THEN mp, OF fixture_sub]
  have r3: "\<exists>resto. ([fila_sub, fila_b], [aviso_sub, aviso_b]) =
        extend (registro entorno_fixture ''Root'' item_sub) resto" .
  show ?thesis by (intro conjI c p v r1 r2 r3 fixture_sub)
qed

text \<open>
  C8 (owner resolution), with the sentinel the script uses. When the owner list of an item is
  present and not empty, the owner column of its record is the \<open>emailAddress\<close> of the first
  owner; when the list is absent or empty, the column is the string \<open>Desconocido\<close>. The
  record is the one the loop over the items returns first for that item.
\<close>

theorem propietario_del_registro:
  "(owners it = Some (primero # otros) \<longrightarrow>
      (\<exists>fecha. fst (registro E r it) =
                 [[r, name it, tipo_de it, emailAddress primero, fecha]])) \<and>
   (owners it' = None \<or> owners it' = Some [] \<longrightarrow>
      (\<exists>fecha. fst (registro E r it') =
                 [[r, name it', tipo_de it', ''Desconocido'', fecha]])) \<and>
   (bucle_items n E r (it # items) = Some salida \<longrightarrow>
      (\<exists>resto. salida = extend (registro E r it) resto))"
proof (intro conjI impI)
  assume "owners it = Some (primero # otros)"
  then have "propietario_de it = emailAddress primero" by (simp add: propietario_de_def)
  then show "\<exists>fecha. fst (registro E r it) =
                 [[r, name it, tipo_de it, emailAddress primero, fecha]]"
    by (simp add: registro_fila)
next
  assume "owners it' = None \<or> owners it' = Some []"
  then have "propietario_de it' = ''Desconocido''" by (auto simp: propietario_de_def)
  then show "\<exists>fecha. fst (registro E r it') =
                 [[r, name it', tipo_de it', ''Desconocido'', fecha]]"
    by (simp add: registro_fila)
next
  assume "bucle_items n E r (it # items) = Some salida"
  then show "\<exists>resto. salida = extend (registro E r it) resto"
    by (rule bucle_items_registro)
qed

text \<open>
  \<open>a.txt\<close> has two owners and its record names the first; \<open>b.txt\<close> has no owner list and
  \<open>sub\<close> an empty one, and their records carry \<open>Desconocido\<close>.
\<close>

theorem propietario_del_registro_witness:
  "owners item_a = Some [\<lparr>emailAddress = ''ana@example.org''\<rparr>,
                          \<lparr>emailAddress = ''luis@example.org''\<rparr>] \<and>
   (\<exists>fecha. fst (registro entorno_fixture ''Root'' item_a) =
      [[''Root'', ''a.txt'', ''Archivo'', ''ana@example.org'', fecha]]) \<and>
   owners item_b = None \<and>
   (\<exists>fecha. fst (registro entorno_fixture ''Root'' item_b) =
      [[''Root'', ''b.txt'', ''Archivo'', ''Desconocido'', fecha]]) \<and>
   owners item_sub = Some [] \<and>
   fst (registro entorno_fixture ''Root'' item_sub) = [fila_sub] \<and>
   fila_sub ! 3 = ''Desconocido'' \<and>
   bucle_items 0 entorno_fixture ''Root'' [item_a] = Some ([fila_a_antes], []) \<and>
   (\<exists>resto. ([fila_a_antes], []) = extend (registro entorno_fixture ''Root'' item_a) resto)"
proof -
  have o: "owners item_a = Some [\<lparr>emailAddress = ''ana@example.org''\<rparr>,
                          \<lparr>emailAddress = ''luis@example.org''\<rparr>]"
    "owners item_b = None" "owners item_sub = Some []"
    by (simp_all add: item_a_def item_b_def item_sub_def)
  have nt: "name item_a = ''a.txt''" "tipo_de item_a = ''Archivo''"
    "name item_b = ''b.txt''" "tipo_de item_b = ''Archivo''"
    "emailAddress \<lparr>emailAddress = ''ana@example.org''\<rparr> = ''ana@example.org''"
    by (simp_all add: ejemplos_defs)
  have s: "fst (registro entorno_fixture ''Root'' item_sub) = [fila_sub]"
    "fila_sub ! 3 = ''Desconocido''"
    by (simp_all add: entorno_fixture_def ejemplos_defs)
  have b: "bucle_items 0 entorno_fixture ''Root'' [item_a] = Some ([fila_a_antes], [])"
    by (simp add: entorno_fixture_def ejemplos_defs)
  note th = propietario_del_registro [of item_a "\<lparr>emailAddress = ''ana@example.org''\<rparr>"
      "[\<lparr>emailAddress = ''luis@example.org''\<rparr>]" entorno_fixture "''Root''" item_b
      0 "[]" "([fila_a_antes], [])"]
  from th [THEN conjunct1, THEN mp, OF o(1)]
  have c1: "\<exists>fecha. fst (registro entorno_fixture ''Root'' item_a) =
      [[''Root'', ''a.txt'', ''Archivo'', ''ana@example.org'', fecha]]"
    by (simp only: nt)
  from th [THEN conjunct2, THEN conjunct1, THEN mp, OF disjI1 [OF o(2)]]
  have c2: "\<exists>fecha. fst (registro entorno_fixture ''Root'' item_b) =
      [[''Root'', ''b.txt'', ''Archivo'', ''Desconocido'', fecha]]"
    by (simp only: nt)
  from th [THEN conjunct2, THEN conjunct2, THEN mp, OF b]
  have c3: "\<exists>resto. ([fila_a_antes], []) = extend (registro entorno_fixture ''Root'' item_a) resto" .
  show ?thesis by (intro conjI o c1 c2 c3 s b)
qed

text \<open>
  The sentinel is not the string \<open>Unknown\<close>: \<open>b.txt\<close> is listed without owners, and the owner
  column of its record is \<open>Desconocido\<close>.
\<close>

theorem propietario_unknown_counterexample:
  "owners item_b = None \<and>
   fst (registro entorno_fixture ''Root/sub'' item_b) = [fila_b] \<and>
   fila_b ! 3 = ''Desconocido'' \<and>
   fila_b ! 3 \<noteq> ''Unknown''"
  by (simp add: entorno_fixture_def ejemplos_defs)

end
